theory Spec2Isabelle
  imports Main "HOL-Library.Word"
begin

unbundle bit_operations_syntax

section \<open>The Sound Blaster 16 driver (sb16\_driver.c)\<close>

text \<open>
  The driver talks to the card through single-byte port reads and writes (\<open>inb\<close>,
  \<open>outb\<close>), keeps two global flags (\<open>in_use\<close>, \<open>int_flag\<close>) and waits on the card
  in busy loops. The model threads one state through every function: the two flags, the
  state of the hardware behind the ports, and the trace of everything the driver did to
  the outside world, oldest event first. A busy loop that the card may never release is a
  \<open>partial_function\<close> in the option monad: \<open>None\<close> is "does not return".
\<close>

subsection \<open>Constants of sb16.h\<close>

type_synonym byte = "8 word"
type_synonym port = "16 word"

text \<open>
  The header sb16.h with the constant definitions is not part of the sources. The
  constants whose value nothing in the sources fixes are the fields of a record that every
  function takes as its first argument: port numbers, command bytes, the poll budget
  \<open>WAITLOOP\<close> (a count, taken as a natural number no larger than a C \<open>int\<close>), the layout
  of the WAV header, the size \<open>BUF_SIZE\<close> of one row of
  \<open>int8_t buffer[BUF_DIM][BUF_SIZE]\<close> and the address \<open>buffer\<close> that the linker gives
  this array.
\<close>

record sb16_h =
  SB16_IRQ_LINE :: nat
  SB16_RESET_PORT :: port
  SB16_READ_PORT :: port
  SB16_WRITE_PORT :: port
  SB16_POLL_PORT :: port
  SB16_POLL_PORT_16 :: port
  BUF_RDY_VAL :: byte
  SUCCESS_VAL :: byte
  WAITLOOP :: nat
  DSP_OUT_RATE_CMD :: byte
  DSP_BCOMMAND :: byte
  DSP_BMODE :: byte
  DMA_MASK_PORT :: port
  DMA_CLR_PTR_PORT :: port
  DMA_MODE_PORT :: port
  DMA_BASE_ADDR :: port
  DMA_COUNT_PORT :: port
  DMA_PAGE_PORT :: port
  DMA_STOP_MASK :: byte
  DMA_START_MASK :: byte
  DMA_MODE :: byte
  WAV_MAGIC :: "32 word"
  WAV_MAGIC_LOC :: nat
  WAV_FORMAT_LOC :: nat
  WAV_NCHANNELS_LOC :: nat
  SAMPLE_RATE_LOC :: nat
  BPSAMPLE_LOC :: nat
  BUF_SIZE :: nat
  buffer :: "32 word"

text \<open>
  Modelled from the spec: the macros \<open>TWOTO16\<close>, \<open>_16BITS\<close>, \<open>NCHANNELS\<close>, \<open>FOUR_B\<close>
  and \<open>BUF_DIM\<close> of the missing sb16.h. The spec gives the offset as
  \<open>(base >> 1) mod 65536\<close> and the page as \<open>base >> 16\<close>, accepts a channel count of 2
  and 16 bits per sample only, has a 4-byte container tag and a buffer of two halves
  (user\_level\_program.c defines \<open>FOUR_B\<close> as 4 and \<open>BUF_DIM\<close> as 2 as well).
  \<open>_16BITS\<close> is written \<open>SIXTEEN_BITS\<close>, since a name cannot start with an underscore.
\<close>

definition TWOTO16 :: nat where "TWOTO16 = 65536"
definition SIXTEEN_BITS :: nat where "SIXTEEN_BITS = 16"
definition NCHANNELS :: nat where "NCHANNELS = 2"
definition FOUR_B :: nat where "FOUR_B = 4"
definition BUF_DIM :: nat where "BUF_DIM = 2"

subsection \<open>Hardware, state and trace\<close>

text \<open>
  The card and the DMA controller are a deterministic machine with a state of type
  \<open>'d\<close>: a port read gives a byte and the next state, a port write gives the next state.
  \<open>inb\<close> of the kernel returns the byte zero-extended, so a byte is all there is to it.
\<close>

record 'd hw =
  hw_in :: "'d \<Rightarrow> port \<Rightarrow> byte \<times> 'd"
  hw_out :: "'d \<Rightarrow> byte \<Rightarrow> port \<Rightarrow> 'd"

datatype event =
    Outb byte port
  | Inb port byte
  | Enable_irq nat
  | Send_eoi nat
  | Cli
  | Sti
  | Delay nat
  | Printf string

record 'd sys =
  in_use :: "32 word"
  int_flag :: "32 word"
  dev :: 'd
  trace :: "event list"

definition emit :: "event \<Rightarrow> 'd sys \<Rightarrow> 'd sys" where
  "emit e s = s\<lparr>trace := trace s @ [e]\<rparr>"

definition outb :: "'d hw \<Rightarrow> byte \<Rightarrow> port \<Rightarrow> 'd sys \<Rightarrow> 'd sys" where
  "outb h v p s = emit (Outb v p) (s\<lparr>dev := hw_out h (dev s) v p\<rparr>)"

definition inb :: "'d hw \<Rightarrow> port \<Rightarrow> 'd sys \<Rightarrow> byte \<times> 'd sys" where
  "inb h p s =
     (let r = hw_in h (dev s) p
      in (fst r, emit (Inb p (fst r)) (s\<lparr>dev := snd r\<rparr>)))"

definition enable_irq :: "nat \<Rightarrow> 'd sys \<Rightarrow> 'd sys" where
  "enable_irq n s = emit (Enable_irq n) s"

definition send_eoi :: "nat \<Rightarrow> 'd sys \<Rightarrow> 'd sys" where
  "send_eoi n s = emit (Send_eoi n) s"

definition printf :: "string \<Rightarrow> 'd sys \<Rightarrow> 'd sys" where
  "printf m s = emit (Printf m) s"

text \<open>The port writes of a trace, in order, and the bytes read from one port.\<close>

fun outs :: "event list \<Rightarrow> (byte \<times> port) list" where
  "outs [] = []"
| "outs (Outb v p # es) = (v, p) # outs es"
| "outs (e # es) = outs es"

fun ins :: "port \<Rightarrow> event list \<Rightarrow> byte list" where
  "ins q [] = []"
| "ins q (Inb p v # es) = (if p = q then v # ins q es else ins q es)"
| "ins q (e # es) = ins q es"

subsection \<open>lo\_byte, hi\_byte\<close>

text \<open>
  Both store the 16-bit word into a two-byte array and read one byte back; on the
  little-endian x86 byte 0 is the low byte.
\<close>

definition lo_byte :: "16 word \<Rightarrow> byte" where
  "lo_byte w = ucast w"

definition hi_byte :: "16 word \<Rightarrow> byte" where
  "hi_byte w = ucast (drop_bit 8 w)"

subsection \<open>dsp\_read, dsp\_write\<close>

text \<open>
  \<open>while (!(inb(SB16_POLL_PORT) & BUF_RDY_VAL));\<close> has no bound: it ends when the poll
  port shows the bit, and not before.
\<close>

partial_function (option) dsp_read_wait :: "sb16_h \<Rightarrow> 'd hw \<Rightarrow> 'd sys \<Rightarrow> 'd sys option" where
  "dsp_read_wait c h s =
     (let r = inb h (SB16_POLL_PORT c) s
      in if fst r AND BUF_RDY_VAL c \<noteq> 0 then Some (snd r) else dsp_read_wait c h (snd r))"

declare dsp_read_wait.simps [code]

definition dsp_read :: "sb16_h \<Rightarrow> 'd hw \<Rightarrow> 'd sys \<Rightarrow> (byte \<times> 'd sys) option" where
  "dsp_read c h s =
     (case dsp_read_wait c h s of
        None \<Rightarrow> None
      | Some s1 \<Rightarrow> Some (inb h (SB16_READ_PORT c) s1))"

text \<open>\<open>while (inb(SB16_WRITE_PORT) & BUF_RDY_VAL);\<close> waits while the bit is set.\<close>

partial_function (option) dsp_write_wait :: "sb16_h \<Rightarrow> 'd hw \<Rightarrow> 'd sys \<Rightarrow> 'd sys option" where
  "dsp_write_wait c h s =
     (let r = inb h (SB16_WRITE_PORT c) s
      in if fst r AND BUF_RDY_VAL c \<noteq> 0 then dsp_write_wait c h (snd r) else Some (snd r))"

declare dsp_write_wait.simps [code]

definition dsp_write :: "sb16_h \<Rightarrow> 'd hw \<Rightarrow> byte \<Rightarrow> 'd sys \<Rightarrow> 'd sys option" where
  "dsp_write c h command s =
     (case dsp_write_wait c h s of
        None \<Rightarrow> None
      | Some s1 \<Rightarrow> Some (outb h command (SB16_WRITE_PORT c) s1))"

subsection \<open>sb16\_reset\<close>

text \<open>
  The loop \<open>while ((dsp_read() != SUCCESS_VAL) && i--);\<close> with \<open>i\<close> at \<open>n\<close>: a ready
  byte ends it with \<open>i\<close> untouched; otherwise \<open>i--\<close> is evaluated, which ends the loop
  when \<open>i\<close> was 0, and leaves \<open>i\<close> one lower in either case. The result is the value of
  \<open>i\<close> after the loop.
\<close>

fun reset_poll :: "sb16_h \<Rightarrow> 'd hw \<Rightarrow> nat \<Rightarrow> 'd sys \<Rightarrow> (int \<times> 'd sys) option" where
  "reset_poll c h 0 s =
     (case dsp_read c h s of
        None \<Rightarrow> None
      | Some (v, s1) \<Rightarrow> if v = SUCCESS_VAL c then Some (0, s1) else Some (- 1, s1))"
| "reset_poll c h (Suc n) s =
     (case dsp_read c h s of
        None \<Rightarrow> None
      | Some (v, s1) \<Rightarrow> if v = SUCCESS_VAL c then Some (int (Suc n), s1) else reset_poll c h n s1)"

text \<open>
  The delay loop \<open>for (i = 0; i < TWOTO16; i++)\<close> does nothing but pass time; the trace
  records it. After the poll loop comes one more \<open>i--\<close>, and \<open>i\<close> is returned.
\<close>

definition sb16_reset :: "sb16_h \<Rightarrow> 'd hw \<Rightarrow> 'd sys \<Rightarrow> (int \<times> 'd sys) option" where
  "sb16_reset c h s =
     (let s1 = outb h 1 (SB16_RESET_PORT c) s;
          s2 = emit (Delay TWOTO16) s1;
          s3 = outb h 0 (SB16_RESET_PORT c) s2
      in case reset_poll c h (WAITLOOP c) s3 of
           None \<Rightarrow> None
         | Some (i, s4) \<Rightarrow> Some (i - 1, s4))"

subsection \<open>dsp\_init, dma\_init\<close>

definition dsp_init ::
    "sb16_h \<Rightarrow> 'd hw \<Rightarrow> 16 word \<Rightarrow> byte \<Rightarrow> byte \<Rightarrow> 16 word \<Rightarrow> 'd sys \<Rightarrow> 'd sys option" where
  "dsp_init c h sample_rate bcommand bmode block_length s =
     (case dsp_write c h (DSP_OUT_RATE_CMD c) s of None \<Rightarrow> None | Some s1 \<Rightarrow>
     (case dsp_write c h (hi_byte sample_rate) s1 of None \<Rightarrow> None | Some s2 \<Rightarrow>
     (case dsp_write c h (lo_byte sample_rate) s2 of None \<Rightarrow> None | Some s3 \<Rightarrow>
     (case dsp_write c h bcommand s3 of None \<Rightarrow> None | Some s4 \<Rightarrow>
     (case dsp_write c h bmode s4 of None \<Rightarrow> None | Some s5 \<Rightarrow>
     (case dsp_write c h (lo_byte block_length) s5 of None \<Rightarrow> None | Some s6 \<Rightarrow>
      dsp_write c h (hi_byte block_length) s6))))))"

definition dma_init :: "sb16_h \<Rightarrow> 'd hw \<Rightarrow> 16 word \<Rightarrow> 16 word \<Rightarrow> byte \<Rightarrow> 'd sys \<Rightarrow> 'd sys" where
  "dma_init c h buf_offset buf_length buf_page s =
     (let s1 = outb h (DMA_STOP_MASK c) (DMA_MASK_PORT c) s;
          s2 = outb h 0 (DMA_CLR_PTR_PORT c) s1;
          s3 = outb h (DMA_MODE c) (DMA_MODE_PORT c) s2;
          s4 = outb h (lo_byte buf_offset) (DMA_BASE_ADDR c) s3;
          s5 = outb h (hi_byte buf_offset) (DMA_BASE_ADDR c) s4;
          s6 = outb h (lo_byte buf_length) (DMA_COUNT_PORT c) s5;
          s7 = outb h (hi_byte buf_length) (DMA_COUNT_PORT c) s6;
          s8 = outb h buf_page (DMA_PAGE_PORT c) s7
      in outb h (DMA_START_MASK c) (DMA_MASK_PORT c) s8)"

subsection \<open>The WAV header\<close>

text \<open>
  \<open>info_block\<close> is a pointer to bytes: \<open>None\<close> is the null pointer, \<open>Some m\<close> a pointer
  where \<open>m k\<close> is the byte at \<open>info_block + k\<close>. The 16-bit fields are read through a
  \<open>uint16_t\<close> pointer, low byte first.
\<close>

type_synonym block = "nat \<Rightarrow> byte"

definition load16 :: "block \<Rightarrow> nat \<Rightarrow> 16 word" where
  "load16 m k = word_of_nat (unat (m k) + 256 * unat (m (k + 1)))"

text \<open>\<open>*((uint32_t*)wav_check)\<close>: the first four bytes of the array, low byte first.\<close>

definition load32 :: "byte list \<Rightarrow> 32 word" where
  "load32 bs =
     word_of_nat (unat (bs ! 0) + 256 * unat (bs ! 1) + 65536 * unat (bs ! 2)
                  + 16777216 * unat (bs ! 3))"

text \<open>
  \<open>memcpy(wav_check, info_block + WAV_MAGIC_LOC, FOUR_B)\<close> into the array
  \<open>{0, 0, 0, 0, 0}\<close> of \<open>FOUR_B + 1\<close> bytes: the last byte stays 0.
\<close>

definition wav_check_copy :: "sb16_h \<Rightarrow> block \<Rightarrow> byte list" where
  "wav_check_copy c m = map (\<lambda>k. m (WAV_MAGIC_LOC c + k)) [0 ..< FOUR_B] @ [0]"

text \<open>
  Modelled from the spec: \<open>strrev\<close>, a routine of the host kernel's string library, which
  is not part of the sources. The spec has the tag "un-reversed before comparison"; the
  driver hands \<open>strrev\<close> a zero-terminated array, and a C string ends at its first zero
  byte, so the bytes before the first zero are reversed and the rest stays in place.
\<close>

definition strrev :: "byte list \<Rightarrow> byte list" where
  "strrev bs = rev (takeWhile (\<lambda>b. b \<noteq> 0) bs) @ dropWhile (\<lambda>b. b \<noteq> 0) bs"

datatype error =
    Already_in_use
  | Reset_failed
  | Info_block_invalid
  | Not_a_wav_file
  | Compressed
  | Not_16bit_stereo

fun message :: "error \<Rightarrow> string" where
  "message Already_in_use =
     ''Another process is using the SB16. Terminate it and try again.'' @ [CHR 0x0A]"
| "message Reset_failed = ''SB16 initialization failed. Check hardware.'' @ [CHR 0x0A]"
| "message Info_block_invalid = ''Info block invalid.'' @ [CHR 0x0A]"
| "message Not_a_wav_file = ''Not a wav file.'' @ [CHR 0x0A]"
| "message Compressed = ''Only uncompressed music is supported.'' @ [CHR 0x0A]"
| "message Not_16bit_stereo = ''Only 16-bit stereo audio is supported.'' @ [CHR 0x0A]"

text \<open>
  The three checks of \<open>sb16_init\<close> on the header (from "copy and reverse wav magic
  numbers" to "check if audio is stereo"), in the order of the source; \<open>None\<close> when all
  three pass.
\<close>

definition check_header :: "sb16_h \<Rightarrow> block \<Rightarrow> error option" where
  "check_header c m =
     (if load32 (strrev (wav_check_copy c m)) \<noteq> WAV_MAGIC c then Some Not_a_wav_file
      else if load16 m (WAV_FORMAT_LOC c) \<noteq> 1 then Some Compressed
      else if load16 m (WAV_NCHANNELS_LOC c) \<noteq> word_of_nat NCHANNELS
              \<or> load16 m (BPSAMPLE_LOC c) \<noteq> word_of_nat SIXTEEN_BITS
           then Some Not_16bit_stereo
      else None)"

subsection \<open>sb16\_init, sb16\_copy\_status, sb16\_shutdown, sb16\_interrupt\<close>

text \<open>
  \<open>buf_offset = ((uint32_t)buffer >> 1) % TWOTO16\<close>, stored in a \<open>uint16_t\<close>, and
  \<open>buf_page = (uint32_t)buffer >> _16BITS\<close>, stored in a \<open>uint8_t\<close>.
\<close>

definition buf_offset_of :: "32 word \<Rightarrow> 16 word" where
  "buf_offset_of a = ucast (drop_bit 1 a mod word_of_nat TWOTO16)"

definition buf_page_of :: "32 word \<Rightarrow> byte" where
  "buf_page_of a = ucast (drop_bit SIXTEEN_BITS a)"

text \<open>
  An error return is \<open>Inl\<close> with the message that was printed, the success return is
  \<open>Inr\<close> with the buffer's address; \<open>retval\<close> is the \<open>int32_t\<close> that the C function
  returns.
\<close>

definition fail :: "error \<Rightarrow> 'd sys \<Rightarrow> ((error + 32 word) \<times> 'd sys) option" where
  "fail e s = Some (Inl e, printf (message e) s)"

definition sb16_init ::
    "sb16_h \<Rightarrow> 'd hw \<Rightarrow> block option \<Rightarrow> 'd sys \<Rightarrow> ((error + 32 word) \<times> 'd sys) option" where
  "sb16_init c h info_block s =
     (let s0 = enable_irq (SB16_IRQ_LINE c) s
      in if in_use s0 \<noteq> 0 then fail Already_in_use s0
         else (case sb16_reset c h s0 of
           None \<Rightarrow> None
         | Some (r, s1) \<Rightarrow>
             if r = - 1 then fail Reset_failed s1
             else (case info_block of
               None \<Rightarrow> fail Info_block_invalid s1
             | Some m \<Rightarrow>
                 (case check_header c m of
                    Some e \<Rightarrow> fail e s1
                  | None \<Rightarrow>
                      (let sample_rate = load16 m (SAMPLE_RATE_LOC c);
                           buf_offset = buf_offset_of (buffer c);
                           buf_page = buf_page_of (buffer c);
                           s2 = dma_init c h buf_offset (word_of_int (int (BUF_SIZE c) - 1))
                                  buf_page s1
                       in (case dsp_init c h sample_rate (DSP_BCOMMAND c) (DSP_BMODE c)
                                  (word_of_int (int (BUF_SIZE c div BUF_DIM) - 1)) s2 of
                             None \<Rightarrow> None
                           | Some s3 \<Rightarrow>
                               Some (Inr (buffer c), s3\<lparr>in_use := 1, int_flag := 1\<rparr>)))))))"

fun retval :: "error + 32 word \<Rightarrow> 32 word" where
  "retval (Inl e) = - 1"
| "retval (Inr a) = a"

definition sb16_copy_status :: "'d sys \<Rightarrow> 32 word" where
  "sb16_copy_status s = int_flag s"

definition sb16_shutdown :: "sb16_h \<Rightarrow> 'd hw \<Rightarrow> 'd sys \<Rightarrow> (32 word \<times> 'd sys) option" where
  "sb16_shutdown c h s =
     (case sb16_reset c h s of
        None \<Rightarrow> None
      | Some (r, s1) \<Rightarrow> Some (0, s1\<lparr>in_use := 0, int_flag := 1\<rparr>))"

text \<open>
  The handler saves the registers, masks interrupts, negates the flag (\<open>!int_flag\<close> is 1
  for 0 and 0 for anything else), reads the acknowledge port, sends the end of interrupt,
  and returns from the interrupt.
\<close>

definition sb16_interrupt :: "sb16_h \<Rightarrow> 'd hw \<Rightarrow> 'd sys \<Rightarrow> 'd sys" where
  "sb16_interrupt c h s =
     (let s1 = emit Cli s;
          s2 = s1\<lparr>int_flag := (if int_flag s1 = 0 then 1 else 0)\<rparr>;
          s3 = snd (inb h (SB16_POLL_PORT_16 c) s2);
          s4 = send_eoi (SB16_IRQ_LINE c) s3
      in emit Sti s4)"

fun interrupts :: "nat \<Rightarrow> sb16_h \<Rightarrow> 'd hw \<Rightarrow> 'd sys \<Rightarrow> 'd sys" where
  "interrupts 0 c h s = s"
| "interrupts (Suc n) c h s = interrupts n c h (sb16_interrupt c h s)"

subsection \<open>What a caller can see of a state\<close>

definition observe :: "'d sys \<Rightarrow> 32 word \<times> 32 word \<times> (byte \<times> port) list" where
  "observe s = (in_use s, int_flag s, outs (trace s))"

text \<open>The state at boot: the initial values of the two globals, nothing done yet.\<close>

definition idle :: "'d \<Rightarrow> 'd sys" where
  "idle d = \<lparr>in_use = 0, int_flag = 1, dev = d, trace = []\<rparr>"

subsection \<open>The port writes of a successful sb16\_init\<close>

text \<open>
  What \<open>sb16_reset\<close>, \<open>dma_init\<close> and \<open>dsp_init\<close> write when \<open>sb16_init\<close> calls them,
  as three lists, for the lemma on the success path.
\<close>

definition reset_writes :: "sb16_h \<Rightarrow> (byte \<times> port) list" where
  "reset_writes c = [(1, SB16_RESET_PORT c), (0, SB16_RESET_PORT c)]"

definition dma_writes :: "sb16_h \<Rightarrow> (byte \<times> port) list" where
  "dma_writes c =
     [(DMA_STOP_MASK c, DMA_MASK_PORT c), (0, DMA_CLR_PTR_PORT c),
      (DMA_MODE c, DMA_MODE_PORT c),
      (lo_byte (buf_offset_of (buffer c)), DMA_BASE_ADDR c),
      (hi_byte (buf_offset_of (buffer c)), DMA_BASE_ADDR c),
      (lo_byte (word_of_int (int (BUF_SIZE c) - 1)), DMA_COUNT_PORT c),
      (hi_byte (word_of_int (int (BUF_SIZE c) - 1)), DMA_COUNT_PORT c),
      (buf_page_of (buffer c), DMA_PAGE_PORT c), (DMA_START_MASK c, DMA_MASK_PORT c)]"

definition dsp_writes :: "sb16_h \<Rightarrow> 16 word \<Rightarrow> (byte \<times> port) list" where
  "dsp_writes c rate =
     [(DSP_OUT_RATE_CMD c, SB16_WRITE_PORT c),
      (hi_byte rate, SB16_WRITE_PORT c), (lo_byte rate, SB16_WRITE_PORT c),
      (DSP_BCOMMAND c, SB16_WRITE_PORT c), (DSP_BMODE c, SB16_WRITE_PORT c),
      (lo_byte (word_of_int (int (BUF_SIZE c div BUF_DIM) - 1)), SB16_WRITE_PORT c),
      (hi_byte (word_of_int (int (BUF_SIZE c div BUF_DIM) - 1)), SB16_WRITE_PORT c)]"

text \<open>The bytes read from the read port so far: one per \<open>dsp_read\<close>.\<close>

definition polled :: "sb16_h \<Rightarrow> 'd sys \<Rightarrow> byte list" where
  "polled c s = ins (SB16_READ_PORT c) (trace s)"

subsection \<open>The claims' own notions\<close>

text \<open>
  The following definitions are not taken from the driver. They write down, in the spec's
  words, what some claims compare the driver with.

  The canonical, big-endian form of the 4-byte container tag: the bytes of the constant,
  most significant first; and the four bytes of the tag as they stand in the header.
\<close>

definition be_bytes :: "32 word \<Rightarrow> byte list" where
  "be_bytes w = [ucast (drop_bit 24 w), ucast (drop_bit 16 w), ucast (drop_bit 8 w), ucast w]"

definition header_tag :: "sb16_h \<Rightarrow> block \<Rightarrow> byte list" where
  "header_tag c m = map (\<lambda>k. m (WAV_MAGIC_LOC c + k)) [0 ..< 4]"

text \<open>
  The order of the checks as the testable property of the spec has it: format code, then
  channel count, then bit depth, then the container tag.
\<close>

definition claimed_check :: "sb16_h \<Rightarrow> block \<Rightarrow> error option" where
  "claimed_check c m =
     (if load16 m (WAV_FORMAT_LOC c) \<noteq> 1 then Some Compressed
      else if load16 m (WAV_NCHANNELS_LOC c) \<noteq> 2 then Some Not_16bit_stereo
      else if load16 m (BPSAMPLE_LOC c) \<noteq> 16 then Some Not_16bit_stereo
      else if header_tag c m \<noteq> be_bytes (WAV_MAGIC c) then Some Not_a_wav_file
      else None)"

text \<open>
  The DMA programming sequence as the spec has it: the page register before the count,
  and a count of \<open>bufferHalfBytes * 2 - 1\<close>, where one half of
  \<open>int8_t buffer[BUF_DIM][BUF_SIZE]\<close> has \<open>BUF_SIZE\<close> bytes.
\<close>

definition dma_sequence_claimed :: "sb16_h \<Rightarrow> (byte \<times> port) list" where
  "dma_sequence_claimed c =
     [(DMA_STOP_MASK c, DMA_MASK_PORT c),
      (0, DMA_CLR_PTR_PORT c),
      (DMA_MODE c, DMA_MODE_PORT c),
      (lo_byte (buf_offset_of (buffer c)), DMA_BASE_ADDR c),
      (hi_byte (buf_offset_of (buffer c)), DMA_BASE_ADDR c),
      (buf_page_of (buffer c), DMA_PAGE_PORT c),
      (lo_byte (word_of_int (int (BUF_SIZE c * 2) - 1)), DMA_COUNT_PORT c),
      (hi_byte (word_of_int (int (BUF_SIZE c * 2) - 1)), DMA_COUNT_PORT c),
      (DMA_START_MASK c, DMA_MASK_PORT c)]"

text \<open>
  The samples per channel in one half of the buffer, for the accepted format: the bytes
  of the half over the channels times the bytes of a sample; and the codec sequence with
  the block length the spec gives, one less than that number.
\<close>

definition samples_per_channel_in_half :: "sb16_h \<Rightarrow> nat" where
  "samples_per_channel_in_half c = BUF_SIZE c div (NCHANNELS * (SIXTEEN_BITS div 8))"

definition dsp_sequence_claimed :: "sb16_h \<Rightarrow> 16 word \<Rightarrow> (byte \<times> port) list" where
  "dsp_sequence_claimed c rate =
     [(DSP_OUT_RATE_CMD c, SB16_WRITE_PORT c),
      (hi_byte rate, SB16_WRITE_PORT c),
      (lo_byte rate, SB16_WRITE_PORT c),
      (DSP_BCOMMAND c, SB16_WRITE_PORT c),
      (DSP_BMODE c, SB16_WRITE_PORT c),
      (lo_byte (word_of_int (int (samples_per_channel_in_half c) - 1)), SB16_WRITE_PORT c),
      (hi_byte (word_of_int (int (samples_per_channel_in_half c) - 1)), SB16_WRITE_PORT c)]"

subsection \<open>Example constants, cards and headers\<close>

text \<open>
  One assignment of the constants, for the examples: a Sound Blaster 16 at base 0x220 on
  IRQ 5 with 16-bit DMA channel 5, the tag \<open>WAVE\<close> at offset 8 of a canonical 44-byte WAV
  header, the \<open>BUF_SIZE\<close> of user\_level\_program.c, and a poll budget of 3, small enough
  to follow every poll by hand.
\<close>

definition sb16_example :: sb16_h where
  "sb16_example =
     \<lparr>SB16_IRQ_LINE = 5,
      SB16_RESET_PORT = 0x226, SB16_READ_PORT = 0x22A, SB16_WRITE_PORT = 0x22C,
      SB16_POLL_PORT = 0x22E, SB16_POLL_PORT_16 = 0x22F,
      BUF_RDY_VAL = 0x80, SUCCESS_VAL = 0xAA, WAITLOOP = 3,
      DSP_OUT_RATE_CMD = 0x41, DSP_BCOMMAND = 0xB6, DSP_BMODE = 0x30,
      DMA_MASK_PORT = 0xD4, DMA_CLR_PTR_PORT = 0xD8, DMA_MODE_PORT = 0xD6,
      DMA_BASE_ADDR = 0xC4, DMA_COUNT_PORT = 0xC6, DMA_PAGE_PORT = 0x8B,
      DMA_STOP_MASK = 0x05, DMA_START_MASK = 0x01, DMA_MODE = 0x59,
      WAV_MAGIC = 0x57415645,
      WAV_MAGIC_LOC = 8, WAV_FORMAT_LOC = 20, WAV_NCHANNELS_LOC = 22,
      SAMPLE_RATE_LOC = 24, BPSAMPLE_LOC = 34,
      BUF_SIZE = 32768, buffer = 0x410000\<rparr>"

text \<open>
  A card that always has a byte to read and always takes a byte: the poll port shows the
  bit, the write port does not, and the read port hands out the bytes of a script, then
  zeros. The state of the card is what is left of the script.
\<close>

definition scripted :: "sb16_h \<Rightarrow> (byte list) hw" where
  "scripted c =
     \<lparr>hw_in = (\<lambda>d p.
        if p = SB16_POLL_PORT c then (BUF_RDY_VAL c, d)
        else if p = SB16_READ_PORT c then (case d of [] \<Rightarrow> (0, []) | b # bs \<Rightarrow> (b, bs))
        else (0, d)),
      hw_out = (\<lambda>d v p. d)\<rparr>"

text \<open>A card on which every port reads 0: the data-available bit never shows.\<close>

definition silent :: "unit hw" where
  "silent = \<lparr>hw_in = (\<lambda>d p. (0, d)), hw_out = (\<lambda>d v p. d)\<rparr>"

definition block_of :: "byte list \<Rightarrow> block" where
  "block_of bs = (\<lambda>k. if k < length bs then bs ! k else 0)"

text \<open>
  A canonical header: RIFF, WAVE, a 16-byte format chunk with format 1, 2 channels,
  44100 Hz, 16 bits, then the data chunk.
\<close>

definition wave_header :: "byte list" where
  "wave_header =
     [0x52, 0x49, 0x46, 0x46,  0x24, 0x00, 0x01, 0x00,
      0x57, 0x41, 0x56, 0x45,  0x66, 0x6D, 0x74, 0x20,
      0x10, 0x00, 0x00, 0x00,  0x01, 0x00, 0x02, 0x00,
      0x44, 0xAC, 0x00, 0x00,  0x10, 0xB1, 0x02, 0x00,
      0x04, 0x00, 0x10, 0x00,  0x64, 0x61, 0x74, 0x61,
      0x00, 0x00, 0x01, 0x00]"

text \<open>
  The canonical header with two changes: the tag reads \<open>WAVX\<close> and the format code is
  0x11 (ADPCM).
\<close>

definition adpcm_header :: "byte list" where
  "adpcm_header = wave_header [11 := 0x58, 20 := 0x11]"

text \<open>
  The port writes of \<open>sb16_init\<close> on the example constants and the canonical header:
  two to the reset port, nine to the DMA controller, seven to the codec.
\<close>

definition played_writes :: "(byte \<times> port) list" where
  "played_writes =
     [(1, 0x226), (0, 0x226),
      (0x05, 0xD4), (0, 0xD8), (0x59, 0xD6), (0x00, 0xC4), (0x80, 0xC4),
      (0xFF, 0xC6), (0x7F, 0xC6), (0x41, 0x8B), (0x01, 0xD4),
      (0x41, 0x22C), (0xAC, 0x22C), (0x44, 0x22C), (0xB6, 0x22C), (0x30, 0x22C),
      (0xFF, 0x22C), (0x3F, 0x22C)]"

section \<open>Lemmas on the driver's functions\<close>

lemma outs_append [simp]: "outs (xs @ ys) = outs xs @ outs ys"
  by (induction xs rule: outs.induct) simp_all

lemma ins_append [simp]: "ins q (xs @ ys) = ins q xs @ ins q ys"
  by (induction q xs rule: ins.induct) simp_all

lemma emit_simps [simp]:
  "in_use (emit e s) = in_use s"
  "int_flag (emit e s) = int_flag s"
  "dev (emit e s) = dev s"
  "trace (emit e s) = trace s @ [e]"
  by (simp_all add: emit_def)

lemma outb_simps [simp]:
  "in_use (outb h v p s) = in_use s"
  "int_flag (outb h v p s) = int_flag s"
  "dev (outb h v p s) = hw_out h (dev s) v p"
  "trace (outb h v p s) = trace s @ [Outb v p]"
  by (simp_all add: outb_def)

lemma inb_simps [simp]:
  "fst (inb h p s) = fst (hw_in h (dev s) p)"
  "in_use (snd (inb h p s)) = in_use s"
  "int_flag (snd (inb h p s)) = int_flag s"
  "dev (snd (inb h p s)) = snd (hw_in h (dev s) p)"
  "trace (snd (inb h p s)) = trace s @ [Inb p (fst (hw_in h (dev s) p))]"
  by (simp_all add: inb_def Let_def)

lemma dsp_read_wait_frame:
  "dsp_read_wait c h s = Some s' \<Longrightarrow>
     in_use s' = in_use s \<and> int_flag s' = int_flag s
     \<and> outs (trace s') = outs (trace s)
     \<and> (q \<noteq> SB16_POLL_PORT c \<longrightarrow> ins q (trace s') = ins q (trace s))"
proof (induction c h s s' rule: dsp_read_wait.raw_induct [rotated 1, consumes 1])
  case (1 f c h s s')
  show ?case
  proof (cases "fst (hw_in h (dev s) (SB16_POLL_PORT c)) AND BUF_RDY_VAL c \<noteq> 0")
    case True
    with 1(2) have "s' = snd (inb h (SB16_POLL_PORT c) s)" by (simp add: Let_def)
    then show ?thesis by simp
  next
    case False
    with 1(2) have "f c h (snd (inb h (SB16_POLL_PORT c) s)) = Some s'" by (simp add: Let_def)
    from 1(1) [OF this] show ?thesis by simp
  qed
qed


lemma dsp_write_wait_frame:
  "dsp_write_wait c h s = Some s' \<Longrightarrow>
     in_use s' = in_use s \<and> int_flag s' = int_flag s
     \<and> outs (trace s') = outs (trace s)"
proof (induction c h s s' rule: dsp_write_wait.raw_induct [rotated 1, consumes 1])
  case (1 f c h s s')
  show ?case
  proof (cases "fst (hw_in h (dev s) (SB16_WRITE_PORT c)) AND BUF_RDY_VAL c \<noteq> 0")
    case False
    with 1(2) have "s' = snd (inb h (SB16_WRITE_PORT c) s)" by (simp add: Let_def)
    then show ?thesis by simp
  next
    case True
    with 1(2) have "f c h (snd (inb h (SB16_WRITE_PORT c) s)) = Some s'" by (simp add: Let_def)
    from 1(1) [OF this] show ?thesis by simp
  qed
qed

lemma dsp_read_frame:
  assumes "dsp_read c h s = Some (v, s')"
  shows "in_use s' = in_use s" and "int_flag s' = int_flag s"
    and "outs (trace s') = outs (trace s)"
    and "SB16_READ_PORT c \<noteq> SB16_POLL_PORT c \<Longrightarrow>
           ins (SB16_READ_PORT c) (trace s') = ins (SB16_READ_PORT c) (trace s) @ [v]"
proof -
  from assms obtain s1 where w: "dsp_read_wait c h s = Some s1"
    and r: "inb h (SB16_READ_PORT c) s1 = (v, s')"
    by (auto simp: dsp_read_def split: option.splits)
  from r have v: "v = fst (hw_in h (dev s1) (SB16_READ_PORT c))"
    and s': "s' = snd (inb h (SB16_READ_PORT c) s1)"
    by (auto simp: inb_def Let_def)
  note f = dsp_read_wait_frame [OF w, of "SB16_READ_PORT c"]
  show "in_use s' = in_use s" "int_flag s' = int_flag s" "outs (trace s') = outs (trace s)"
    using f by (simp_all add: s')
  show "ins (SB16_READ_PORT c) (trace s') = ins (SB16_READ_PORT c) (trace s) @ [v]"
    if "SB16_READ_PORT c \<noteq> SB16_POLL_PORT c"
    using f that by (simp add: s' v)
qed

lemma dsp_write_frame:
  assumes "dsp_write c h b s = Some s'"
  shows "in_use s' = in_use s" and "int_flag s' = int_flag s"
    and "outs (trace s') = outs (trace s) @ [(b, SB16_WRITE_PORT c)]"
proof -
  from assms obtain s1 where w: "dsp_write_wait c h s = Some s1"
    and s': "s' = outb h b (SB16_WRITE_PORT c) s1"
    by (auto simp: dsp_write_def split: option.splits)
  note f = dsp_write_wait_frame [OF w]
  show "in_use s' = in_use s" "int_flag s' = int_flag s"
    "outs (trace s') = outs (trace s) @ [(b, SB16_WRITE_PORT c)]"
    using f by (simp_all add: s')
qed

lemma reset_poll_frame:
  "reset_poll c h n s = Some (i, s') \<Longrightarrow>
     in_use s' = in_use s \<and> int_flag s' = int_flag s \<and> outs (trace s') = outs (trace s)"
proof (induction n arbitrary: s)
  case 0
  then show ?case
    by (auto split: option.splits if_splits dest: dsp_read_frame(1,2,3))
next
  case (Suc n)
  from Suc.prems obtain v s1 where r: "dsp_read c h s = Some (v, s1)"
    by (auto split: option.splits)
  show ?case
  proof (cases "v = SUCCESS_VAL c")
    case True
    with Suc.prems r have "s' = s1" by simp
    with dsp_read_frame(1,2,3) [OF r] show ?thesis by simp
  next
    case False
    with Suc.prems r have "reset_poll c h n s1 = Some (i, s')" by simp
    from Suc.IH [OF this] dsp_read_frame(1,2,3) [OF r] show ?thesis by simp
  qed
qed

text \<open>The bytes that the poll loop reads, and what it returns for them.\<close>

lemma reset_poll_reads:
  assumes ports: "SB16_READ_PORT c \<noteq> SB16_POLL_PORT c"
  shows "reset_poll c h n s = Some (i, s') \<Longrightarrow>
     \<exists>rs. ins (SB16_READ_PORT c) (trace s') = ins (SB16_READ_PORT c) (trace s) @ rs
        \<and> rs \<noteq> [] \<and> length rs \<le> Suc n \<and> SUCCESS_VAL c \<notin> set (butlast rs)
        \<and> (if last rs = SUCCESS_VAL c then i = int (Suc n) - int (length rs)
            else length rs = Suc n \<and> i = - 1)"
proof (induction n arbitrary: s)
  case 0
  from 0 obtain v s1 where r: "dsp_read c h s = Some (v, s1)"
    by (auto split: option.splits)
  from 0 r have s1: "s' = s1" and i: "i = (if v = SUCCESS_VAL c then 0 else - 1)"
    by (auto split: if_splits)
  from dsp_read_frame(4) [OF r ports] s1 i show ?case
    by (intro exI [of _ "[v]"]) simp
next
  case (Suc n)
  from Suc.prems obtain v s1 where r: "dsp_read c h s = Some (v, s1)"
    by (auto split: option.splits)
  note rd = dsp_read_frame(4) [OF r ports]
  show ?case
  proof (cases "v = SUCCESS_VAL c")
    case True
    with Suc.prems r have "s' = s1" "i = int (Suc n)" by simp_all
    with rd True show ?thesis by (intro exI [of _ "[v]"]) simp
  next
    case False
    with Suc.prems r have "reset_poll c h n s1 = Some (i, s')" by simp
    from Suc.IH [OF this] obtain rs where
      rs: "ins (SB16_READ_PORT c) (trace s') = ins (SB16_READ_PORT c) (trace s1) @ rs"
        "rs \<noteq> []" "length rs \<le> Suc n" "SUCCESS_VAL c \<notin> set (butlast rs)"
        "if last rs = SUCCESS_VAL c then i = int (Suc n) - int (length rs)
         else length rs = Suc n \<and> i = - 1"
      by blast
    show ?thesis
      using rs rd False by (intro exI [of _ "v # rs"]) (auto split: if_splits)
  qed
qed

lemma sb16_reset_unfold:
  "sb16_reset c h s =
     (case reset_poll c h (WAITLOOP c)
             (outb h 0 (SB16_RESET_PORT c) (emit (Delay TWOTO16) (outb h 1 (SB16_RESET_PORT c) s))) of
        None \<Rightarrow> None
      | Some (i, s4) \<Rightarrow> Some (i - 1, s4))"
  unfolding sb16_reset_def Let_def ..

lemma sb16_reset_SomeE:
  assumes "sb16_reset c h s = Some (r, s')"
  obtains i where
    "reset_poll c h (WAITLOOP c)
       (outb h 0 (SB16_RESET_PORT c) (emit (Delay TWOTO16) (outb h 1 (SB16_RESET_PORT c) s)))
     = Some (i, s')" and "r = i - 1"
proof (cases "reset_poll c h (WAITLOOP c)
       (outb h 0 (SB16_RESET_PORT c) (emit (Delay TWOTO16) (outb h 1 (SB16_RESET_PORT c) s)))")
  case None
  with assms show ?thesis by (simp add: sb16_reset_unfold)
next
  case (Some p)
  with assms that show ?thesis by (cases p) (auto simp: sb16_reset_unfold)
qed

lemma sb16_reset_frame:
  assumes "sb16_reset c h s = Some (r, s')"
  shows "in_use s' = in_use s" and "int_flag s' = int_flag s"
    and "outs (trace s') = outs (trace s) @ [(1, SB16_RESET_PORT c), (0, SB16_RESET_PORT c)]"
proof -
  from assms obtain i where "reset_poll c h (WAITLOOP c)
       (outb h 0 (SB16_RESET_PORT c) (emit (Delay TWOTO16) (outb h 1 (SB16_RESET_PORT c) s)))
     = Some (i, s')"
    by (rule sb16_reset_SomeE)
  from reset_poll_frame [OF this]
  show "in_use s' = in_use s" "int_flag s' = int_flag s"
    "outs (trace s') = outs (trace s) @ [(1, SB16_RESET_PORT c), (0, SB16_RESET_PORT c)]"
    by simp_all
qed


lemma sb16_reset_reads:
  assumes ports: "SB16_READ_PORT c \<noteq> SB16_POLL_PORT c"
    and "sb16_reset c h s = Some (r, s')"
  shows "\<exists>rs. ins (SB16_READ_PORT c) (trace s') = ins (SB16_READ_PORT c) (trace s) @ rs
        \<and> rs \<noteq> [] \<and> length rs \<le> Suc (WAITLOOP c) \<and> SUCCESS_VAL c \<notin> set (butlast rs)
        \<and> (if last rs = SUCCESS_VAL c then r = int (WAITLOOP c) - int (length rs)
            else length rs = Suc (WAITLOOP c) \<and> r = - 2)"
proof -
  from assms(2) obtain i where p: "reset_poll c h (WAITLOOP c)
       (outb h 0 (SB16_RESET_PORT c) (emit (Delay TWOTO16) (outb h 1 (SB16_RESET_PORT c) s)))
     = Some (i, s')" and r: "r = i - 1"
    by (rule sb16_reset_SomeE)
  from reset_poll_reads [OF ports p] obtain rs where
    rs: "ins (SB16_READ_PORT c) (trace s') = ins (SB16_READ_PORT c) (trace s) @ rs"
      "rs \<noteq> []" "length rs \<le> Suc (WAITLOOP c)" "SUCCESS_VAL c \<notin> set (butlast rs)"
      "if last rs = SUCCESS_VAL c then i = int (Suc (WAITLOOP c)) - int (length rs)
       else length rs = Suc (WAITLOOP c) \<and> i = - 1"
    by auto
  from rs(5) r have "if last rs = SUCCESS_VAL c then r = int (WAITLOOP c) - int (length rs)
            else length rs = Suc (WAITLOOP c) \<and> r = - 2"
    by (simp split: if_splits)
  with rs(1-4) show ?thesis by blast
qed

text \<open>When every wait for the data-available bit ends, the reset handshake returns.\<close>

lemma dsp_read_returns:
  assumes "\<forall>s. dsp_read_wait c h s \<noteq> None"
  shows "\<exists>v s1. dsp_read c h s = Some (v, s1)"
proof -
  from assms obtain s0 where "dsp_read_wait c h s = Some s0" by blast
  then have "dsp_read c h s = Some (inb h (SB16_READ_PORT c) s0)"
    by (simp add: dsp_read_def)
  then show ?thesis by (cases "inb h (SB16_READ_PORT c) s0") auto
qed

lemma reset_poll_returns:
  assumes "\<forall>s. dsp_read_wait c h s \<noteq> None"
  shows "\<exists>i s'. reset_poll c h n s = Some (i, s')"
proof (induction n arbitrary: s)
  case 0
  from dsp_read_returns [OF assms, of s] show ?case by auto
next
  case (Suc n)
  from dsp_read_returns [OF assms, of s] obtain v s1 where r: "dsp_read c h s = Some (v, s1)"
    by blast
  with Suc.IH [of s1] show ?case by auto
qed

lemma sb16_reset_returns:
  assumes "\<forall>s. dsp_read_wait c h s \<noteq> None"
  shows "\<exists>r s'. sb16_reset c h s = Some (r, s')"
proof -
  from reset_poll_returns [OF assms] obtain i s' where
    "reset_poll c h (WAITLOOP c)
       (outb h 0 (SB16_RESET_PORT c) (emit (Delay TWOTO16) (outb h 1 (SB16_RESET_PORT c) s)))
     = Some (i, s')" by blast
  then show ?thesis by (simp add: sb16_reset_unfold)
qed

lemma dma_init_frame [simp]:
  "in_use (dma_init c h off len page s) = in_use s"
  "int_flag (dma_init c h off len page s) = int_flag s"
  "outs (trace (dma_init c h off len page s)) =
     outs (trace s) @
     [(DMA_STOP_MASK c, DMA_MASK_PORT c), (0, DMA_CLR_PTR_PORT c), (DMA_MODE c, DMA_MODE_PORT c),
      (lo_byte off, DMA_BASE_ADDR c), (hi_byte off, DMA_BASE_ADDR c),
      (lo_byte len, DMA_COUNT_PORT c), (hi_byte len, DMA_COUNT_PORT c),
      (page, DMA_PAGE_PORT c), (DMA_START_MASK c, DMA_MASK_PORT c)]"
  by (simp_all add: dma_init_def Let_def)

lemma case_option_SomeE:
  assumes "(case x of None \<Rightarrow> None | Some a \<Rightarrow> f a) = Some y"
  obtains a where "x = Some a" and "f a = Some y"
  using assms by (cases x) simp_all

lemma dsp_init_frame:
  assumes "dsp_init c h rate bc bm len s = Some s'"
  shows "in_use s' = in_use s" and "int_flag s' = int_flag s"
    and "outs (trace s') =
       outs (trace s) @
       [(DSP_OUT_RATE_CMD c, SB16_WRITE_PORT c),
        (hi_byte rate, SB16_WRITE_PORT c), (lo_byte rate, SB16_WRITE_PORT c),
        (bc, SB16_WRITE_PORT c), (bm, SB16_WRITE_PORT c),
        (lo_byte len, SB16_WRITE_PORT c), (hi_byte len, SB16_WRITE_PORT c)]"
proof -
  from assms [unfolded dsp_init_def] obtain s1 s2 s3 s4 s5 s6 where w:
    "dsp_write c h (DSP_OUT_RATE_CMD c) s = Some s1"
    "dsp_write c h (hi_byte rate) s1 = Some s2"
    "dsp_write c h (lo_byte rate) s2 = Some s3"
    "dsp_write c h bc s3 = Some s4"
    "dsp_write c h bm s4 = Some s5"
    "dsp_write c h (lo_byte len) s5 = Some s6"
    "dsp_write c h (hi_byte len) s6 = Some s'"
    by (elim case_option_SomeE) blast
  show "in_use s' = in_use s"
    using w [THEN dsp_write_frame(1)] by simp
  show "int_flag s' = int_flag s"
    using w [THEN dsp_write_frame(2)] by simp
  show "outs (trace s') =
       outs (trace s) @
       [(DSP_OUT_RATE_CMD c, SB16_WRITE_PORT c),
        (hi_byte rate, SB16_WRITE_PORT c), (lo_byte rate, SB16_WRITE_PORT c),
        (bc, SB16_WRITE_PORT c), (bm, SB16_WRITE_PORT c),
        (lo_byte len, SB16_WRITE_PORT c), (hi_byte len, SB16_WRITE_PORT c)]"
    using w [THEN dsp_write_frame(3)] by simp
qed


lemma printf_simps [simp]:
  "in_use (printf m s) = in_use s"
  "int_flag (printf m s) = int_flag s"
  "dev (printf m s) = dev s"
  "trace (printf m s) = trace s @ [Printf m]"
  by (simp_all add: printf_def)

lemma enable_irq_simps [simp]:
  "in_use (enable_irq n s) = in_use s"
  "int_flag (enable_irq n s) = int_flag s"
  "dev (enable_irq n s) = dev s"
  "trace (enable_irq n s) = trace s @ [Enable_irq n]"
  by (simp_all add: enable_irq_def)

text \<open>\<open>sb16_init\<close>, one branch at a time.\<close>

lemma sb16_init_busy:
  "in_use s \<noteq> 0 \<Longrightarrow>
     sb16_init c h blk s = fail Already_in_use (enable_irq (SB16_IRQ_LINE c) s)"
  by (simp add: sb16_init_def Let_def)

lemma sb16_init_hangs:
  "in_use s = 0 \<Longrightarrow> sb16_reset c h (enable_irq (SB16_IRQ_LINE c) s) = None \<Longrightarrow>
     sb16_init c h blk s = None"
  by (simp add: sb16_init_def Let_def)

lemma sb16_init_reset_failed:
  "in_use s = 0 \<Longrightarrow> sb16_reset c h (enable_irq (SB16_IRQ_LINE c) s) = Some (- 1, s1) \<Longrightarrow>
     sb16_init c h blk s = fail Reset_failed s1"
  by (simp add: sb16_init_def Let_def)

lemma sb16_init_null:
  "in_use s = 0 \<Longrightarrow> sb16_reset c h (enable_irq (SB16_IRQ_LINE c) s) = Some (r, s1) \<Longrightarrow>
     r \<noteq> - 1 \<Longrightarrow> sb16_init c h None s = fail Info_block_invalid s1"
  by (simp add: sb16_init_def Let_def)

lemma sb16_init_bad_header:
  "in_use s = 0 \<Longrightarrow> sb16_reset c h (enable_irq (SB16_IRQ_LINE c) s) = Some (r, s1) \<Longrightarrow>
     r \<noteq> - 1 \<Longrightarrow> check_header c m = Some e \<Longrightarrow>
     sb16_init c h (Some m) s = fail e s1"
  by (simp add: sb16_init_def Let_def)

lemma sb16_init_good_header:
  "in_use s = 0 \<Longrightarrow> sb16_reset c h (enable_irq (SB16_IRQ_LINE c) s) = Some (r, s1) \<Longrightarrow>
     r \<noteq> - 1 \<Longrightarrow> check_header c m = None \<Longrightarrow>
     sb16_init c h (Some m) s =
       (case dsp_init c h (load16 m (SAMPLE_RATE_LOC c)) (DSP_BCOMMAND c) (DSP_BMODE c)
               (word_of_int (int (BUF_SIZE c div BUF_DIM) - 1))
               (dma_init c h (buf_offset_of (buffer c)) (word_of_int (int (BUF_SIZE c) - 1))
                  (buf_page_of (buffer c)) s1) of
          None \<Rightarrow> None
        | Some s3 \<Rightarrow> Some (Inr (buffer c), s3\<lparr>in_use := 1, int_flag := 1\<rparr>))"
  by (simp add: sb16_init_def Let_def)

text \<open>
  Every return of \<open>sb16_init\<close> is one of five: busy, reset answered \<open>-1\<close>, null pointer,
  bad header, or the success path.
\<close>

lemma sb16_init_cases:
  assumes "sb16_init c h blk s = Some (x, s')"
  obtains
    (busy) "in_use s \<noteq> 0" "x = Inl Already_in_use"
      "s' = printf (message Already_in_use) (enable_irq (SB16_IRQ_LINE c) s)"
  | (reset) s1 where "in_use s = 0"
      "sb16_reset c h (enable_irq (SB16_IRQ_LINE c) s) = Some (- 1, s1)"
      "x = Inl Reset_failed" "s' = printf (message Reset_failed) s1"
  | (null) r s1 where "in_use s = 0"
      "sb16_reset c h (enable_irq (SB16_IRQ_LINE c) s) = Some (r, s1)" "r \<noteq> - 1"
      "blk = None" "x = Inl Info_block_invalid" "s' = printf (message Info_block_invalid) s1"
  | (header) r s1 m e where "in_use s = 0"
      "sb16_reset c h (enable_irq (SB16_IRQ_LINE c) s) = Some (r, s1)" "r \<noteq> - 1"
      "blk = Some m" "check_header c m = Some e" "x = Inl e" "s' = printf (message e) s1"
  | (play) r s1 m s3 where "in_use s = 0"
      "sb16_reset c h (enable_irq (SB16_IRQ_LINE c) s) = Some (r, s1)" "r \<noteq> - 1"
      "blk = Some m" "check_header c m = None"
      "dsp_init c h (load16 m (SAMPLE_RATE_LOC c)) (DSP_BCOMMAND c) (DSP_BMODE c)
         (word_of_int (int (BUF_SIZE c div BUF_DIM) - 1))
         (dma_init c h (buf_offset_of (buffer c)) (word_of_int (int (BUF_SIZE c) - 1))
            (buf_page_of (buffer c)) s1) = Some s3"
      "x = Inr (buffer c)" "s' = s3\<lparr>in_use := 1, int_flag := 1\<rparr>"
proof (cases "in_use s = 0")
  case False
  with assms sb16_init_busy [of s c h blk] show ?thesis
    by (intro busy) (simp_all add: fail_def)
next
  case u: True
  show ?thesis
  proof (cases "sb16_reset c h (enable_irq (SB16_IRQ_LINE c) s)")
    case None
    with assms u sb16_init_hangs [of s c h blk] show ?thesis by simp
  next
    case (Some p)
    then obtain r s1 where r: "sb16_reset c h (enable_irq (SB16_IRQ_LINE c) s) = Some (r, s1)"
      by (cases p) simp
    show ?thesis
    proof (cases "r = - 1")
      case True
      with assms u r sb16_init_reset_failed [of s c h s1 blk] show ?thesis
        by (intro reset [of s1]) (simp_all add: fail_def)
    next
      case nr: False
      show ?thesis
      proof (cases blk)
        case None
        with assms u r nr sb16_init_null [of s c h r s1] show ?thesis
          by (intro null [of r s1]) (simp_all add: fail_def)
      next
        case (Some m)
        show ?thesis
        proof (cases "check_header c m")
          case (Some e)
          with assms u r nr \<open>blk = Some m\<close> sb16_init_bad_header [of s c h r s1 m e]
          show ?thesis
            by (intro header [of r s1 m e]) (simp_all add: fail_def)
        next
          case None
          from assms u r nr \<open>blk = Some m\<close> None sb16_init_good_header [of s c h r s1 m]
          have "(case dsp_init c h (load16 m (SAMPLE_RATE_LOC c)) (DSP_BCOMMAND c) (DSP_BMODE c)
               (word_of_int (int (BUF_SIZE c div BUF_DIM) - 1))
               (dma_init c h (buf_offset_of (buffer c)) (word_of_int (int (BUF_SIZE c) - 1))
                  (buf_page_of (buffer c)) s1) of
              None \<Rightarrow> None
            | Some s3 \<Rightarrow> Some (Inr (buffer c), s3\<lparr>in_use := 1, int_flag := 1\<rparr>)) = Some (x, s')"
            by simp
          then obtain s3 where
            "dsp_init c h (load16 m (SAMPLE_RATE_LOC c)) (DSP_BCOMMAND c) (DSP_BMODE c)
               (word_of_int (int (BUF_SIZE c div BUF_DIM) - 1))
               (dma_init c h (buf_offset_of (buffer c)) (word_of_int (int (BUF_SIZE c) - 1))
                  (buf_page_of (buffer c)) s1) = Some s3"
            "Some (Inr (buffer c), s3\<lparr>in_use := 1, int_flag := 1\<rparr>) = Some (x, s')"
            by (rule case_option_SomeE)
          with u r nr \<open>blk = Some m\<close> None show ?thesis
            by (intro play [of r s1 m s3]) simp_all
        qed
      qed
    qed
  qed
qed

section \<open>The interrupt handler\<close>

lemma sb16_interrupt_flags:
  "int_flag (sb16_interrupt c h s) = (if int_flag s = 0 then 1 else 0)"
  "in_use (sb16_interrupt c h s) = in_use s"
  by (simp_all add: sb16_interrupt_def Let_def send_eoi_def)

lemma interrupts_Suc:
  "interrupts (Suc n) c h s = sb16_interrupt c h (interrupts n c h s)"
  by (induction n arbitrary: s) simp_all

lemma interrupts_status:
  "int_flag s = 1 \<Longrightarrow> int_flag (interrupts n c h s) = (if even n then 1 else 0)"
proof (induction n)
  case 0
  then show ?case by simp
next
  case (Suc n)
  then show ?case
    by (simp add: interrupts_Suc sb16_interrupt_flags del: interrupts.simps)
qed

text \<open>
  Claim C6. One run of \<open>sb16_interrupt\<close> negates the status flag \<open>int_flag\<close> (the value
  that \<open>sb16_copy_status\<close> reports) and leaves \<open>in_use\<close> alone. Starting from the baseline
  1, the status after \<open>n\<close> interrupts in a row is the baseline exactly when \<open>n\<close> is even,
  and it differs from one interrupt to the next.
\<close>

theorem interrupt_toggles:
  "sb16_copy_status (sb16_interrupt c h s) = (if sb16_copy_status s = 0 then 1 else 0)
   \<and> in_use (sb16_interrupt c h s) = in_use s
   \<and> (sb16_copy_status s = 1 \<longrightarrow>
        (sb16_copy_status (interrupts n c h s) = 1 \<longleftrightarrow> even n)
        \<and> sb16_copy_status (interrupts (Suc n) c h s) \<noteq> sb16_copy_status (interrupts n c h s))"
  unfolding sb16_copy_status_def
  by (simp add: interrupts_Suc sb16_interrupt_flags interrupts_status del: interrupts.simps)

theorem interrupt_toggles_witness:
  "sb16_copy_status (idle ()) = 1
   \<and> sb16_copy_status (interrupts 3 sb16_example silent (idle ())) \<noteq> 1
   \<and> sb16_copy_status (interrupts 4 sb16_example silent (idle ())) = 1"
proof -
  have b: "sb16_copy_status (idle ()) = 1"
    by (simp add: sb16_copy_status_def idle_def)
  with interrupt_toggles [of sb16_example silent "idle ()" 3]
    interrupt_toggles [of sb16_example silent "idle ()" 4]
  show ?thesis by simp
qed

section \<open>Cards for the examples\<close>

lemma scripted_in [simp]:
  "hw_in (scripted c) d (SB16_POLL_PORT c) = (BUF_RDY_VAL c, d)"
  by (simp add: scripted_def)

lemma scripted_read_wait:
  "BUF_RDY_VAL c \<noteq> 0 \<Longrightarrow>
     dsp_read_wait c (scripted c) s = Some (snd (inb (scripted c) (SB16_POLL_PORT c) s))"
  by (subst dsp_read_wait.simps) (simp add: Let_def)

lemma silent_read_wait_aux:
  "dsp_read_wait c h s = Some s' \<Longrightarrow> h \<noteq> silent"
proof (induction c h s s' rule: dsp_read_wait.raw_induct [rotated 1, consumes 1])
  case (1 f c h s s')
  show ?case
  proof
    assume h: "h = silent"
    have "fst (hw_in silent (dev s) (SB16_POLL_PORT c)) = 0"
      by (simp add: silent_def)
    with 1(2) h have "f c h (snd (inb h (SB16_POLL_PORT c) s)) = Some s'"
      by (simp add: Let_def)
    from 1(1) [OF this] h show False by simp
  qed
qed

lemma silent_read_wait: "dsp_read_wait c silent s = None"
  using silent_read_wait_aux [of c silent s] by (cases "dsp_read_wait c silent s") auto

lemma silent_reset: "sb16_reset c silent s = None"
proof -
  have "reset_poll c silent n t = None" for n t
    by (cases n) (simp_all add: dsp_read_def silent_read_wait)
  then show ?thesis by (simp add: sb16_reset_unfold)
qed

lemma scripted_reset_returns:
  "BUF_RDY_VAL c \<noteq> 0 \<Longrightarrow> sb16_reset c (scripted c) s \<noteq> None"
  using sb16_reset_returns [of c "scripted c" s] by (simp add: scripted_read_wait)

lemma example_rdy [simp]: "BUF_RDY_VAL sb16_example \<noteq> 0"
  by (simp add: sb16_example_def)

section \<open>Error returns of sb16\_init\<close>

text \<open>An error return leaves both flags alone and has written to the reset port at most.\<close>

lemma sb16_init_error:
  assumes "sb16_init c h blk s = Some (Inl e, s')"
  shows "in_use s' = in_use s" and "int_flag s' = int_flag s"
    and "outs (trace s') = outs (trace s) \<or>
         outs (trace s') = outs (trace s) @ [(1, SB16_RESET_PORT c), (0, SB16_RESET_PORT c)]"
proof -
  have "in_use s' = in_use s \<and> int_flag s' = int_flag s \<and>
        (outs (trace s') = outs (trace s) \<or>
         outs (trace s') = outs (trace s) @ [(1, SB16_RESET_PORT c), (0, SB16_RESET_PORT c)])"
    using assms
  proof (cases rule: sb16_init_cases)
    case busy
    then show ?thesis by simp
  next
    case (reset s1)
    with sb16_reset_frame [OF reset(2)] show ?thesis by simp
  next
    case (null r s1)
    with sb16_reset_frame [OF null(2)] show ?thesis by simp
  next
    case (header r s1 m e')
    with sb16_reset_frame [OF header(2)] show ?thesis by simp
  next
    case (play r s1 m s3)
    then show ?thesis by simp
  qed
  then show "in_use s' = in_use s" "int_flag s' = int_flag s"
    "outs (trace s') = outs (trace s) \<or>
         outs (trace s') = outs (trace s) @ [(1, SB16_RESET_PORT c), (0, SB16_RESET_PORT c)]"
    by simp_all
qed

text \<open>
  Claim C7. With \<open>in_use\<close> set, \<open>sb16_init\<close> returns the error "already in use"; and
  every error return of \<open>sb16_init\<close>, whichever check produced it, has the C return value
  \<open>-1\<close> and leaves \<open>in_use\<close> and \<open>int_flag\<close> at the values they had before the call (so
  \<open>in_use\<close> is still 0 after an error on the paths where it was 0).
\<close>

theorem sb16_init_errors_keep_state:
  "(in_use s \<noteq> 0 \<longrightarrow> (\<exists>s'. sb16_init c h blk s = Some (Inl Already_in_use, s')))
   \<and> (\<forall>e s'. sb16_init c h blk s = Some (Inl e, s') \<longrightarrow>
         retval (Inl e) = - 1 \<and> in_use s' = in_use s \<and> int_flag s' = int_flag s)"
  by (auto simp: sb16_init_busy fail_def dest: sb16_init_error(1,2))

theorem sb16_init_errors_keep_state_witness:
  "in_use ((idle ()) \<lparr>in_use := 1\<rparr>) \<noteq> 0
   \<and> (\<exists>s'. sb16_init sb16_example silent (Some (block_of wave_header)) ((idle ()) \<lparr>in_use := 1\<rparr>)
             = Some (Inl Already_in_use, s')
          \<and> retval (Inl Already_in_use) = - 1 \<and> in_use s' = 1 \<and> int_flag s' = 1)"
proof -
  let ?s = "(idle ()) \<lparr>in_use := 1\<rparr>"
  have b: "in_use ?s \<noteq> 0" and f: "in_use ?s = 1" "int_flag ?s = 1"
    by (simp_all add: idle_def)
  note t = sb16_init_errors_keep_state [of ?s sb16_example silent "Some (block_of wave_header)"]
  from t b obtain s' where
    s': "sb16_init sb16_example silent (Some (block_of wave_header)) ?s
         = Some (Inl Already_in_use, s')"
    by blast
  with t have "retval (Inl Already_in_use) = - 1 \<and> in_use s' = in_use ?s
      \<and> int_flag s' = int_flag ?s"
    by blast
  with b s' f show ?thesis by auto
qed

section \<open>The null header pointer\<close>

text \<open>
  Claim C10, as stated, fails on a card whose data-available bit never shows: called with
  a null pointer while the card is free, \<open>sb16_init\<close> runs the reset handshake first,
  and the handshake waits for that bit without a bound, so the call does not return.
\<close>

theorem sb16_init_null_hangs:
  "sb16_init sb16_example silent None (idle ()) = None"
  by (rule sb16_init_hangs) (simp_all add: idle_def silent_reset)

text \<open>
  Claim C10, amended. Called with a null header pointer, \<open>sb16_init\<close> returns whenever
  the reset handshake it runs returns (it runs none when the card is busy), and then the
  return is an error (busy, reset failed or invalid info block) with the C value \<open>-1\<close>; \<open>in_use\<close> and \<open>int_flag\<close> are as before
  the call, and the only ports written are the two writes of the handshake to the reset
  port, so neither the DMA controller nor the codec has been programmed.
\<close>

theorem sb16_init_null_pointer:
  assumes "in_use s \<noteq> 0 \<or> sb16_reset c h (enable_irq (SB16_IRQ_LINE c) s) \<noteq> None"
  shows "\<exists>e s'. sb16_init c h None s = Some (Inl e, s')
           \<and> e \<in> {Already_in_use, Reset_failed, Info_block_invalid}
           \<and> retval (Inl e) = - 1
           \<and> in_use s' = in_use s \<and> int_flag s' = int_flag s
           \<and> (outs (trace s') = outs (trace s) \<or>
              outs (trace s') = outs (trace s) @ [(1, SB16_RESET_PORT c), (0, SB16_RESET_PORT c)])"
proof -
  have "\<exists>e s'. sb16_init c h None s = Some (Inl e, s')
           \<and> e \<in> {Already_in_use, Reset_failed, Info_block_invalid}"
  proof (cases "in_use s = 0")
    case False
    then show ?thesis by (simp add: sb16_init_busy fail_def)
  next
    case True
    with assms obtain r s1 where
      r: "sb16_reset c h (enable_irq (SB16_IRQ_LINE c) s) = Some (r, s1)"
      by (cases "sb16_reset c h (enable_irq (SB16_IRQ_LINE c) s)") auto
    show ?thesis
    proof (cases "r = - 1")
      case True
      with \<open>in_use s = 0\<close> r show ?thesis
        by (simp add: sb16_init_reset_failed fail_def)
    next
      case False
      with \<open>in_use s = 0\<close> r show ?thesis
        by (simp add: sb16_init_null fail_def)
    qed
  qed
  then obtain e s' where i: "sb16_init c h None s = Some (Inl e, s')"
    and e: "e \<in> {Already_in_use, Reset_failed, Info_block_invalid}"
    by blast
  from sb16_init_error [OF i] i e show ?thesis by auto
qed

theorem sb16_init_null_pointer_witness:
  "sb16_reset sb16_example (scripted sb16_example)
      (enable_irq (SB16_IRQ_LINE sb16_example) (idle [])) \<noteq> None
   \<and> (\<exists>e s'. sb16_init sb16_example (scripted sb16_example) None (idle []) = Some (Inl e, s')
          \<and> retval (Inl e) = - 1 \<and> in_use s' = 0 \<and> int_flag s' = 1)"
proof -
  have r: "sb16_reset sb16_example (scripted sb16_example)
      (enable_irq (SB16_IRQ_LINE sb16_example) (idle [])) \<noteq> None"
    by (rule scripted_reset_returns) simp
  have "in_use (idle ([] :: byte list)) = 0" "int_flag (idle ([] :: byte list)) = 1"
    by (simp_all add: idle_def)
  with sb16_init_null_pointer [OF disjI2, OF r] r show ?thesis by auto
qed

section \<open>sb16\_shutdown\<close>

text \<open>
  Claim C8, as stated, fails on a card whose data-available bit never shows:
  \<open>sb16_shutdown\<close> starts with the reset handshake, which waits for that bit without a
  bound, so the call does not return 0; it does not return.
\<close>

theorem sb16_shutdown_hangs:
  "sb16_shutdown sb16_example silent (idle ()) = None"
  by (simp add: sb16_shutdown_def silent_reset)

text \<open>
  Claim C8, amended. Whenever its reset handshake returns, \<open>sb16_shutdown\<close> returns 0 and
  leaves \<open>in_use\<close> at 0 and \<open>int_flag\<close> at the baseline 1, whatever the two flags were
  before and whatever the handshake answered; a second call right after it, when its
  handshake returns too, gives the same return value and the same flags.
\<close>

theorem sb16_shutdown_baseline:
  assumes "sb16_reset c h s \<noteq> None"
  shows "\<exists>s'. sb16_shutdown c h s = Some (0, s') \<and> in_use s' = 0 \<and> int_flag s' = 1
           \<and> (sb16_reset c h s' \<noteq> None \<longrightarrow>
                (\<exists>s''. sb16_shutdown c h s' = Some (0, s'')
                    \<and> in_use s'' = in_use s' \<and> int_flag s'' = int_flag s'))"
proof -
  have one: "\<exists>s'. sb16_shutdown c h t = Some (0, s') \<and> in_use s' = 0 \<and> int_flag s' = 1"
    if "sb16_reset c h t \<noteq> None" for t
  proof -
    from that obtain r s1 where "sb16_reset c h t = Some (r, s1)"
      by (cases "sb16_reset c h t") auto
    then show ?thesis by (simp add: sb16_shutdown_def)
  qed
  from one [OF assms] obtain s' where
    s': "sb16_shutdown c h s = Some (0, s')" "in_use s' = 0" "int_flag s' = 1"
    by blast
  with one [of s'] show ?thesis by auto
qed

theorem sb16_shutdown_baseline_witness:
  "sb16_reset sb16_example (scripted sb16_example) ((idle []) \<lparr>in_use := 1, int_flag := 0\<rparr>) \<noteq> None
   \<and> (\<exists>s'. sb16_shutdown sb16_example (scripted sb16_example)
               ((idle []) \<lparr>in_use := 1, int_flag := 0\<rparr>) = Some (0, s')
          \<and> in_use s' = 0 \<and> int_flag s' = 1
          \<and> (\<exists>s''. sb16_shutdown sb16_example (scripted sb16_example) s' = Some (0, s'')
                \<and> in_use s'' = 0 \<and> int_flag s'' = 1))"
proof -
  let ?s = "(idle ([] :: byte list)) \<lparr>in_use := 1, int_flag := 0\<rparr>"
  have r: "sb16_reset sb16_example (scripted sb16_example) t \<noteq> None" for t
    by (rule scripted_reset_returns) simp
  from sb16_shutdown_baseline [OF r [of ?s]] r show ?thesis
    by (metis (no_types, lifting))
qed

section \<open>The success path of sb16\_init\<close>

text \<open>The success return: what held before, and everything written to the ports.\<close>

lemma sb16_init_success:
  assumes "sb16_init c h blk s = Some (Inr a, s')"
  shows "a = buffer c" and "in_use s = 0" and "in_use s' = 1" and "int_flag s' = 1"
    and "\<exists>m. blk = Some m \<and> check_header c m = None \<and>
       outs (trace s') =
         outs (trace s) @ reset_writes c @ dma_writes c @ dsp_writes c (load16 m (SAMPLE_RATE_LOC c))"
proof -
  have "a = buffer c \<and> in_use s = 0 \<and> in_use s' = 1 \<and> int_flag s' = 1 \<and>
    (\<exists>m. blk = Some m \<and> check_header c m = None \<and>
       outs (trace s') =
         outs (trace s) @ reset_writes c @ dma_writes c @ dsp_writes c (load16 m (SAMPLE_RATE_LOC c)))"
    using assms
  proof (cases rule: sb16_init_cases)
    case (play r s1 m s3)
    have "outs (trace s') = outs (trace s3)" by (simp add: play(8))
    with dsp_init_frame(3) [OF play(6)] sb16_reset_frame(3) [OF play(2)]
    have "outs (trace s') =
         outs (trace s) @ reset_writes c @ dma_writes c @ dsp_writes c (load16 m (SAMPLE_RATE_LOC c))"
      by (simp add: reset_writes_def dma_writes_def dsp_writes_def)
    with play show ?thesis by simp
  qed simp_all
  then show "a = buffer c" "in_use s = 0" "in_use s' = 1" "int_flag s' = 1"
    "\<exists>m. blk = Some m \<and> check_header c m = None \<and>
       outs (trace s') =
         outs (trace s) @ reset_writes c @ dma_writes c @ dsp_writes c (load16 m (SAMPLE_RATE_LOC c))"
    by blast+
qed

section \<open>Runs on the example card\<close>

lemma example_fields [simp]:
  "SB16_IRQ_LINE sb16_example = 5"
  "SB16_RESET_PORT sb16_example = 0x226"
  "SB16_READ_PORT sb16_example = 0x22A"
  "SB16_WRITE_PORT sb16_example = 0x22C"
  "SB16_POLL_PORT sb16_example = 0x22E"
  "SB16_POLL_PORT_16 sb16_example = 0x22F"
  "BUF_RDY_VAL sb16_example = 0x80"
  "SUCCESS_VAL sb16_example = 0xAA"
  "WAITLOOP sb16_example = 3"
  "DSP_OUT_RATE_CMD sb16_example = 0x41"
  "DSP_BCOMMAND sb16_example = 0xB6"
  "DSP_BMODE sb16_example = 0x30"
  "DMA_MASK_PORT sb16_example = 0xD4"
  "DMA_CLR_PTR_PORT sb16_example = 0xD8"
  "DMA_MODE_PORT sb16_example = 0xD6"
  "DMA_BASE_ADDR sb16_example = 0xC4"
  "DMA_COUNT_PORT sb16_example = 0xC6"
  "DMA_PAGE_PORT sb16_example = 0x8B"
  "DMA_STOP_MASK sb16_example = 0x05"
  "DMA_START_MASK sb16_example = 0x01"
  "DMA_MODE sb16_example = 0x59"
  "WAV_MAGIC sb16_example = 0x57415645"
  "WAV_MAGIC_LOC sb16_example = 8"
  "WAV_FORMAT_LOC sb16_example = 20"
  "WAV_NCHANNELS_LOC sb16_example = 22"
  "SAMPLE_RATE_LOC sb16_example = 24"
  "BPSAMPLE_LOC sb16_example = 34"
  "BUF_SIZE sb16_example = 32768"
  "buffer sb16_example = 0x410000"
  by (simp_all add: sb16_example_def)

lemma scripted_simps [simp]:
  "SB16_READ_PORT c \<noteq> SB16_POLL_PORT c \<Longrightarrow>
     hw_in (scripted c) d (SB16_READ_PORT c) = (case d of [] \<Rightarrow> (0, []) | b # bs \<Rightarrow> (b, bs))"
  "p \<noteq> SB16_POLL_PORT c \<Longrightarrow> p \<noteq> SB16_READ_PORT c \<Longrightarrow> hw_in (scripted c) d p = (0, d)"
  "hw_out (scripted c) d v p = d"
  by (simp_all add: scripted_def)

text \<open>One \<open>dsp_read\<close> and one \<open>dsp_write\<close> on a scripted card.\<close>

lemma scripted_dsp_read:
  assumes "BUF_RDY_VAL c \<noteq> 0" and "SB16_READ_PORT c \<noteq> SB16_POLL_PORT c"
  shows "dsp_read c (scripted c) s =
     Some (case dev s of [] \<Rightarrow> 0 | b # bs \<Rightarrow> b,
           s\<lparr>dev := (case dev s of [] \<Rightarrow> [] | b # bs \<Rightarrow> bs),
             trace := trace s @ [Inb (SB16_POLL_PORT c) (BUF_RDY_VAL c),
                                 Inb (SB16_READ_PORT c) (case dev s of [] \<Rightarrow> 0 | b # bs \<Rightarrow> b)]\<rparr>)"
  using assms
  by (cases "dev s")
     (simp_all add: dsp_read_def scripted_read_wait inb_def emit_def Let_def)

lemma scripted_write_wait:
  assumes "SB16_WRITE_PORT c \<noteq> SB16_POLL_PORT c" and "SB16_WRITE_PORT c \<noteq> SB16_READ_PORT c"
  shows "dsp_write_wait c (scripted c) s = Some (snd (inb (scripted c) (SB16_WRITE_PORT c) s))"
  using assms by (subst dsp_write_wait.simps) (simp add: Let_def)

lemma scripted_dsp_write:
  assumes "SB16_WRITE_PORT c \<noteq> SB16_POLL_PORT c" and "SB16_WRITE_PORT c \<noteq> SB16_READ_PORT c"
  shows "dsp_write c (scripted c) b s =
     Some (s\<lparr>trace := trace s @ [Inb (SB16_WRITE_PORT c) 0, Outb b (SB16_WRITE_PORT c)]\<rparr>)"
  using assms
  by (simp add: dsp_write_def scripted_write_wait inb_def outb_def emit_def Let_def)

lemma wave_ok: "check_header sb16_example (block_of wave_header) = None"
  by (simp add: check_header_def block_of_def wave_header_def
      wav_check_copy_def strrev_def load32_def load16_def FOUR_B_def NCHANNELS_def
      SIXTEEN_BITS_def upt_rec)

lemma wave_rate: "load16 (block_of wave_header) 24 = 0xAC44"
  by (simp add: block_of_def wave_header_def load16_def)

lemma example_args:
  "buf_offset_of 0x410000 = 0x8000" "buf_page_of 0x410000 = 0x41"
  "lo_byte 0x8000 = 0" "hi_byte 0x8000 = 0x80"
  "lo_byte 0x7FFF = 0xFF" "hi_byte 0x7FFF = 0x7F"
  "lo_byte 0x3FFF = 0xFF" "hi_byte 0x3FFF = 0x3F"
  "lo_byte 0xAC44 = 0x44" "hi_byte 0xAC44 = 0xAC"
  by (simp_all add: buf_offset_of_def buf_page_of_def TWOTO16_def SIXTEEN_BITS_def
      lo_byte_def hi_byte_def)

lemma example_play:
  "map_option (apsnd observe)
     (sb16_init sb16_example (scripted sb16_example) (Some (block_of wave_header)) (idle [0xAA]))
   = Some (Inr 0x410000, 1, 1, played_writes)"
  by (simp add: sb16_init_def Let_def enable_irq_def emit_def idle_def
      sb16_reset_unfold numeral_3_eq_3 scripted_dsp_read scripted_dsp_write
      dsp_init_def dma_init_def outb_def wave_ok wave_rate example_args BUF_DIM_def
      observe_def played_writes_def TWOTO16_def)

lemma example_play_never_ready:
  "map_option (apsnd observe)
     (sb16_init sb16_example (scripted sb16_example) (Some (block_of wave_header)) (idle []))
   = Some (Inr 0x410000, 1, 1, played_writes)"
  by (simp add: sb16_init_def Let_def enable_irq_def emit_def idle_def
      sb16_reset_unfold numeral_3_eq_3 scripted_dsp_read scripted_dsp_write
      dsp_init_def dma_init_def outb_def wave_ok wave_rate example_args BUF_DIM_def
      observe_def played_writes_def TWOTO16_def)

lemma map_option_apsnd_Some:
  assumes "map_option (apsnd f) x = Some (a, b)"
  obtains s where "x = Some (a, s)" and "f s = b"
  using assms by (cases x) auto

section \<open>Buffer placement\<close>

lemma unat_buf_offset_of: "unat (buf_offset_of a) = (unat a div 2) mod 65536"
proof -
  have "unat (drop_bit 1 a mod (65536 :: 32 word)) = (unat a div 2) mod 65536"
    by (simp add: unat_mod unat_div unat_drop_bit_eq drop_bit_eq_div)
  then show ?thesis
    by (simp add: buf_offset_of_def TWOTO16_def unsigned_ucast_eq take_bit_eq_mod)
qed

lemma unat_buf_page_of: "unat (buf_page_of a) = (unat a div 65536) mod 256"
  by (simp add: buf_page_of_def SIXTEEN_BITS_def unsigned_ucast_eq take_bit_eq_mod
      unat_drop_bit_eq drop_bit_eq_div unat_div)

lemma rebuild_address:
  fixes n :: nat
  assumes "even n"
  shows "n = 131072 * (n div 65536 div 2) + 2 * (n div 2 mod 65536)"
proof -
  define m where "m = n div 2"
  define q where "q = m div 65536"
  define r where "r = m mod 65536"
  have m: "m = 65536 * q + r" unfolding q_def r_def by simp
  from assms have n: "n = 2 * m" unfolding m_def by simp
  have "n div 65536 div 2 = n div 2 div 65536"
    by (simp add: div_mult2_eq [symmetric])
  then have q: "n div 65536 div 2 = q" unfolding q_def m_def .
  have "n = 131072 * q + 2 * r" using m n by simp
  then show ?thesis unfolding q r_def m_def .
qed

lemma buffer_rebuild:
  assumes "even (unat a)" "unat a < 2 ^ 24"
  shows "unat (buf_page_of a) = unat a div 65536"
    and "unat a = 131072 * (unat (buf_page_of a) div 2) + 2 * unat (buf_offset_of a)"
proof -
  from assms(2) have "unat a div 65536 < 256" by simp
  then show p: "unat (buf_page_of a) = unat a div 65536"
    by (simp add: unat_buf_page_of)
  show "unat a = 131072 * (unat (buf_page_of a) div 2) + 2 * unat (buf_offset_of a)"
    unfolding p unat_buf_offset_of by (rule rebuild_address [OF assms(1)])
qed

section \<open>Header validation\<close>

lemma unat_be_bytes:
  "map unat (be_bytes w) =
     [unat w div 16777216 mod 256, unat w div 65536 mod 256, unat w div 256 mod 256,
      unat w mod 256]"
  by (simp add: be_bytes_def unsigned_ucast_eq take_bit_eq_mod unat_drop_bit_eq drop_bit_eq_div
      unat_div)

lemma digits_rebuild:
  fixes n :: nat
  assumes "n < 4294967296"
  shows "n = n mod 256 + 256 * (n div 256 mod 256) + 65536 * (n div 65536 mod 256)
             + 16777216 * (n div 16777216 mod 256)"
proof -
  define a where "a = n div 256"
  define b where "b = a div 256"
  define c where "c = b div 256"
  have 1: "n = n mod 256 + 256 * a" unfolding a_def by simp
  have 2: "a = a mod 256 + 256 * b" unfolding b_def by simp
  have 3: "b = b mod 256 + 256 * c" unfolding c_def by simp
  have b: "b = n div 65536" unfolding b_def a_def by (simp add: div_mult2_eq [symmetric])
  have c: "c = n div 16777216" unfolding c_def b by (simp add: div_mult2_eq [symmetric])
  from assms have "c < 256" unfolding c by simp
  then have 4: "c mod 256 = c" by simp
  have "n = n mod 256 + 256 * (a mod 256) + 65536 * (b mod 256) + 16777216 * (c mod 256)"
    unfolding 4 using 1 2 3 by linarith
  then show ?thesis unfolding c [symmetric] b [symmetric] a_def [symmetric] .
qed

lemma digits_unique:
  fixes x0 x1 x2 x3 :: nat
  assumes "x0 < 256" "x1 < 256" "x2 < 256" "x3 < 256"
    and n: "n = x0 + 256 * x1 + 65536 * x2 + 16777216 * x3"
  shows "n mod 256 = x0" "n div 256 mod 256 = x1" "n div 65536 mod 256 = x2"
    "n div 16777216 mod 256 = x3" "n < 4294967296"
proof -
  define t1 where "t1 = x1 + 256 * (x2 + 256 * x3)"
  define t2 where "t2 = x2 + 256 * x3"
  have n1: "n = x0 + 256 * t1" unfolding t1_def n by simp
  have t1: "t1 = x1 + 256 * t2" unfolding t1_def t2_def by simp
  from n1 assms(1) show "n mod 256 = x0" by simp
  from n1 assms(1) have d1: "n div 256 = t1" by simp
  with t1 assms(2) show "n div 256 mod 256 = x1" by simp
  from t1 assms(2) have d2: "t1 div 256 = t2" by simp
  have "n div 65536 = n div 256 div 256" by (simp add: div_mult2_eq [symmetric])
  with d1 d2 have d2': "n div 65536 = t2" by simp
  with assms(3) show "n div 65536 mod 256 = x2" unfolding t2_def by simp
  have "t2 div 256 = x3" unfolding t2_def using assms(3) by simp
  moreover have "n div 16777216 = n div 65536 div 256" by (simp add: div_mult2_eq [symmetric])
  ultimately have "n div 16777216 = x3" using d2' by simp
  with assms(4) show "n div 16777216 mod 256 = x3" by simp
  from assms(1-4) show "n < 4294967296" unfolding n by linarith
qed

lemma load32_eq_iff:
  "load32 (w0 # w1 # w2 # w3 # ws) = M \<longleftrightarrow> [w3, w2, w1, w0] = be_bytes M"
proof -
  define n where "n = unat w0 + 256 * unat w1 + 65536 * unat w2 + 16777216 * unat w3"
  have lt: "unat w0 < 256" "unat w1 < 256" "unat w2 < 256" "unat w3 < 256"
    using unsigned_less [of w0] unsigned_less [of w1] unsigned_less [of w2] unsigned_less [of w3]
    by simp_all
  note d = digits_unique [OF lt n_def]
  have l: "load32 (w0 # w1 # w2 # w3 # ws) = word_of_nat n"
    by (simp add: load32_def n_def)
  from d(5) have un: "unat (word_of_nat n :: 32 word) = n"
    by (simp add: unat_of_nat)
  have bytes: "[w3, w2, w1, w0] = be_bytes M \<longleftrightarrow>
      map unat [w3, w2, w1, w0] = map unat (be_bytes M)"
    by (simp add: be_bytes_def word_unat_eq_iff)
  show ?thesis
  proof
    assume "load32 (w0 # w1 # w2 # w3 # ws) = M"
    with l un have "unat M = n" by simp
    with d(1-4) show "[w3, w2, w1, w0] = be_bytes M"
      unfolding bytes unat_be_bytes by simp
  next
    assume "[w3, w2, w1, w0] = be_bytes M"
    then have e: "unat w3 = unat M div 16777216 mod 256" "unat w2 = unat M div 65536 mod 256"
      "unat w1 = unat M div 256 mod 256" "unat w0 = unat M mod 256"
      unfolding bytes unat_be_bytes by simp_all
    have "unat M < 4294967296" using unsigned_less [of M] by simp
    then have "unat M = n" unfolding n_def e by (rule digits_rebuild)
    then have "M = word_of_nat n" by (simp add: word_unat_eq_iff un)
    with l show "load32 (w0 # w1 # w2 # w3 # ws) = M" by simp
  qed
qed

lemma wav_check_copy_eq:
  "wav_check_copy c m =
     [m (WAV_MAGIC_LOC c), m (WAV_MAGIC_LOC c + 1), m (WAV_MAGIC_LOC c + 2),
      m (WAV_MAGIC_LOC c + 3), 0]"
  by (simp add: wav_check_copy_def FOUR_B_def upt_rec numeral_3_eq_3)

lemma header_tag_eq:
  "header_tag c m =
     [m (WAV_MAGIC_LOC c), m (WAV_MAGIC_LOC c + 1), m (WAV_MAGIC_LOC c + 2),
      m (WAV_MAGIC_LOC c + 3)]"
  by (simp add: header_tag_def upt_rec numeral_3_eq_3)

text \<open>
  Reversing a zero-terminated string of four bytes reverses all four when none is zero
  and otherwise leaves a zero among the four; a constant without a zero byte can only be
  matched in the first case.
\<close>

lemma strrev_magic:
  assumes "0 \<notin> set (be_bytes M)"
  shows "load32 (strrev [a, b, c, d, 0]) = M \<longleftrightarrow> [a, b, c, d] = be_bytes M"
proof (cases "a \<noteq> 0 \<and> b \<noteq> 0 \<and> c \<noteq> 0 \<and> d \<noteq> 0")
  case True
  then have "strrev [a, b, c, d, 0] = [d, c, b, a, 0]" by (simp add: strrev_def)
  then show ?thesis by (simp add: load32_eq_iff)
next
  case False
  then have z: "0 \<in> set [a, b, c, d]" by auto
  with assms have r: "[a, b, c, d] \<noteq> be_bytes M" by metis
  have "\<exists>w0 w1 w2 w3. strrev [a, b, c, d, 0] = [w0, w1, w2, w3, 0] \<and> 0 \<in> set [w3, w2, w1, w0]"
  proof (cases "a = 0")
    case True
    then show ?thesis by (simp add: strrev_def)
  next
    case a: False
    show ?thesis
    proof (cases "b = 0")
      case True
      with a show ?thesis by (simp add: strrev_def)
    next
      case b: False
      show ?thesis
      proof (cases "c = 0")
        case True
        with a b show ?thesis by (simp add: strrev_def)
      next
        case c: False
        with a b False have "d = 0" by simp
        with a b c show ?thesis by (simp add: strrev_def)
      qed
    qed
  qed
  then obtain w0 w1 w2 w3 where s: "strrev [a, b, c, d, 0] = [w0, w1, w2, w3, 0]"
    and w: "0 \<in> set [w3, w2, w1, w0]" by blast
  from w assms have "[w3, w2, w1, w0] \<noteq> be_bytes M" by metis
  then have "load32 (strrev [a, b, c, d, 0]) \<noteq> M" by (simp add: s load32_eq_iff)
  with r show ?thesis by simp
qed

lemma magic_check:
  assumes "0 \<notin> set (be_bytes (WAV_MAGIC c))"
  shows "load32 (strrev (wav_check_copy c m)) = WAV_MAGIC c
         \<longleftrightarrow> header_tag c m = be_bytes (WAV_MAGIC c)"
  unfolding wav_check_copy_eq header_tag_eq by (rule strrev_magic [OF assms])

text \<open>
  Claim C3, amended. For a constant \<open>WAV_MAGIC\<close> without a zero byte (as every tag of
  four characters is), the header checks of \<open>sb16_init\<close> accept exactly the headers whose
  container tag is the constant's bytes in reversed (big-endian) order, whose format code
  is 1, whose channel count is 2 and whose bits per sample are 16; the sample rate is not
  looked at. Every other header is rejected with the error of the first check that fails,
  in the order of the source: wrong container tag, then format code other than 1, then
  channel count other than 2 or bit depth other than 16 (one error for the two).
\<close>

theorem header_validation:
  assumes "0 \<notin> set (be_bytes (WAV_MAGIC c))"
  shows "check_header c m =
     (if header_tag c m \<noteq> be_bytes (WAV_MAGIC c) then Some Not_a_wav_file
      else if load16 m (WAV_FORMAT_LOC c) \<noteq> 1 then Some Compressed
      else if load16 m (WAV_NCHANNELS_LOC c) \<noteq> 2 \<or> load16 m (BPSAMPLE_LOC c) \<noteq> 16
           then Some Not_16bit_stereo
      else None)
    \<and> (check_header c m = None \<longleftrightarrow>
         header_tag c m = be_bytes (WAV_MAGIC c) \<and> load16 m (WAV_FORMAT_LOC c) = 1
         \<and> load16 m (WAV_NCHANNELS_LOC c) = 2 \<and> load16 m (BPSAMPLE_LOC c) = 16)"
  by (simp add: check_header_def magic_check [OF assms] NCHANNELS_def SIXTEEN_BITS_def)

lemma example_magic: "be_bytes 0x57415645 = [0x57, 0x41, 0x56, 0x45]"
  by (simp add: be_bytes_def)

theorem header_validation_witness:
  "0 \<notin> set (be_bytes (WAV_MAGIC sb16_example))
   \<and> header_tag sb16_example (block_of wave_header) = be_bytes (WAV_MAGIC sb16_example)
   \<and> check_header sb16_example (block_of wave_header) = None
   \<and> header_tag sb16_example (block_of adpcm_header) \<noteq> be_bytes (WAV_MAGIC sb16_example)
   \<and> check_header sb16_example (block_of adpcm_header) = Some Not_a_wav_file"
proof -
  have z: "0 \<notin> set (be_bytes (WAV_MAGIC sb16_example))"
    by (simp add: example_magic)
  have g: "header_tag sb16_example (block_of wave_header) = be_bytes (WAV_MAGIC sb16_example)"
    "load16 (block_of wave_header) (WAV_FORMAT_LOC sb16_example) = 1"
    "load16 (block_of wave_header) (WAV_NCHANNELS_LOC sb16_example) = 2"
    "load16 (block_of wave_header) (BPSAMPLE_LOC sb16_example) = 16"
    by (simp_all add: example_magic header_tag_eq block_of_def wave_header_def load16_def)
  have b: "header_tag sb16_example (block_of adpcm_header) \<noteq> be_bytes (WAV_MAGIC sb16_example)"
    by (simp add: example_magic header_tag_eq block_of_def wave_header_def adpcm_header_def)
  from header_validation [OF z, of "block_of wave_header"]
    header_validation [OF z, of "block_of adpcm_header"] z g b
  show ?thesis by simp
qed

text \<open>
  Claim C3, as stated, fails on a header with a wrong tag and format code 0x11: the claim
  has the format error reported first and the tag error last, the driver checks the tag
  first and reports "Not a wav file".
\<close>

theorem header_priority_counterexample:
  "check_header sb16_example (block_of adpcm_header) = Some Not_a_wav_file
   \<and> claimed_check sb16_example (block_of adpcm_header) = Some Compressed"
  by (simp add: check_header_def claimed_check_def block_of_def wave_header_def adpcm_header_def
      wav_check_copy_def strrev_def load32_def load16_def FOUR_B_def upt_rec)

section \<open>Bytes of a 16-bit word\<close>

lemma unat_lo_byte: "unat (lo_byte w) = unat w mod 256"
  by (simp add: lo_byte_def unsigned_ucast_eq take_bit_eq_mod)

lemma unat_hi_byte: "unat (hi_byte w) = unat w div 256"
proof -
  have "unat w < 65536" using unsigned_less [of w] by simp
  then have "unat w div 256 < 256" by simp
  then show ?thesis
    by (simp add: hi_byte_def unsigned_ucast_eq take_bit_eq_mod unat_drop_bit_eq drop_bit_eq_div
        unat_div)
qed

lemma unat_lo_hi: "unat (lo_byte w) + 256 * unat (hi_byte w) = unat w"
  by (simp add: unat_lo_byte unat_hi_byte)

lemma unat_pred_16:
  assumes "0 < n" "n \<le> 65536"
  shows "unat (word_of_int (int n - 1) :: 16 word) = n - 1"
proof -
  from assms(1) have e: "int n - 1 = int (n - 1)" by (simp add: of_nat_diff)
  have "(word_of_int (int n - 1) :: 16 word) = word_of_int (int (n - 1))"
    by (simp only: e)
  also have "\<dots> = word_of_nat (n - 1)"
    by (simp only: of_int_of_nat_eq)
  finally have w: "(word_of_int (int n - 1) :: 16 word) = word_of_nat (n - 1)" .
  have "unat (word_of_nat (n - 1) :: 16 word) = (n - 1) mod 2 ^ LENGTH(16)"
    by (rule unat_of_nat)
  also from assms have "\<dots> = n - 1" by simp
  finally show ?thesis by (simp only: w)
qed

section \<open>Buffer placement in sb16\_init\<close>

text \<open>
  Claim C9. For the address \<open>A\<close> of its buffer, a successful \<open>sb16_init\<close> returns \<open>A\<close>
  and hands the DMA controller the offset \<open>(A >> 1) mod 65536\<close>, as the low and the high
  byte written to the base address port (writes 6 and 7 of the call), and the page
  \<open>A >> 16\<close> cut to 8 bits, as the byte written to the page port (write 10). For the
  addresses 16-bit ISA DMA can reach, the even ones below \<open>2 ^ 24\<close>, the page is
  \<open>A >> 16\<close> itself, and offset and page give the address back: bits 23 to 17 are the page
  without its lowest bit, bits 16 to 1 the offset; so no other such address has the same
  offset and page.
\<close>

theorem sb16_init_buffer_placement:
  assumes "sb16_init c h blk s = Some (Inr a, s')"
  shows "a = buffer c
   \<and> (\<exists>lo hi page pre mid post.
         outs (trace s') =
           outs (trace s) @ pre @ [(lo, DMA_BASE_ADDR c), (hi, DMA_BASE_ADDR c)] @ mid @
           [(page, DMA_PAGE_PORT c)] @ post
         \<and> length pre = 5 \<and> length mid = 2 \<and> length post = 8
         \<and> unat lo + 256 * unat hi = (unat (buffer c) div 2) mod 65536
         \<and> unat page = (unat (buffer c) div 65536) mod 256
         \<and> (even (unat (buffer c)) \<and> unat (buffer c) < 2 ^ 24 \<longrightarrow>
              unat page = unat (buffer c) div 65536
              \<and> unat (buffer c) = 131072 * (unat page div 2) + 2 * (unat lo + 256 * unat hi)
              \<and> (\<forall>b. even (unat b) \<and> unat b < 2 ^ 24
                     \<and> buf_offset_of b = buf_offset_of (buffer c)
                     \<and> buf_page_of b = buf_page_of (buffer c) \<longrightarrow> b = buffer c)))"
proof (rule conjI)
  show "a = buffer c" by (rule sb16_init_success(1) [OF assms])
  let ?A = "buffer c"
  let ?lo = "lo_byte (buf_offset_of ?A)"
  let ?hi = "hi_byte (buf_offset_of ?A)"
  let ?page = "buf_page_of ?A"
  let ?pre = "reset_writes c @
     [(DMA_STOP_MASK c, DMA_MASK_PORT c), (0, DMA_CLR_PTR_PORT c), (DMA_MODE c, DMA_MODE_PORT c)]"
  let ?mid = "[(lo_byte (word_of_int (int (BUF_SIZE c) - 1)), DMA_COUNT_PORT c),
               (hi_byte (word_of_int (int (BUF_SIZE c) - 1)), DMA_COUNT_PORT c)]"
  from sb16_init_success(5) [OF assms] obtain m where
    w: "outs (trace s') =
       outs (trace s) @ reset_writes c @ dma_writes c @ dsp_writes c (load16 m (SAMPLE_RATE_LOC c))"
    by blast
  let ?post = "(DMA_START_MASK c, DMA_MASK_PORT c) # dsp_writes c (load16 m (SAMPLE_RATE_LOC c))"
  have 1: "outs (trace s') =
           outs (trace s) @ ?pre @ [(?lo, DMA_BASE_ADDR c), (?hi, DMA_BASE_ADDR c)] @ ?mid @
           [(?page, DMA_PAGE_PORT c)] @ ?post"
    unfolding w by (simp only: dma_writes_def, simp)
  have 2: "length ?pre = 5" "length ?mid = 2" "length ?post = 8"
    by (simp_all add: reset_writes_def dsp_writes_def)
  have 3: "unat ?lo + 256 * unat ?hi = (unat ?A div 2) mod 65536"
    unfolding unat_lo_hi by (rule unat_buf_offset_of)
  have 4: "unat ?page = (unat ?A div 65536) mod 256"
    by (rule unat_buf_page_of)
  have 5: "even (unat ?A) \<and> unat ?A < 2 ^ 24 \<longrightarrow>
              unat ?page = unat ?A div 65536
              \<and> unat ?A = 131072 * (unat ?page div 2) + 2 * (unat ?lo + 256 * unat ?hi)
              \<and> (\<forall>b. even (unat b) \<and> unat b < 2 ^ 24
                     \<and> buf_offset_of b = buf_offset_of ?A
                     \<and> buf_page_of b = buf_page_of ?A \<longrightarrow> b = ?A)"
  proof (intro impI conjI allI)
    assume v: "even (unat ?A) \<and> unat ?A < 2 ^ 24"
    then have e: "even (unat ?A)" and l: "unat ?A < 2 ^ 24" by simp_all
    show "unat ?page = unat ?A div 65536" by (rule buffer_rebuild(1) [OF e l])
    show "unat ?A = 131072 * (unat ?page div 2) + 2 * (unat ?lo + 256 * unat ?hi)"
      unfolding unat_lo_hi by (rule buffer_rebuild(2) [OF e l])
    fix b :: "32 word"
    assume b: "even (unat b) \<and> unat b < 2 ^ 24
                     \<and> buf_offset_of b = buf_offset_of ?A
                     \<and> buf_page_of b = buf_page_of ?A"
    then have be: "even (unat b)" and bl: "unat b < 2 ^ 24"
      and bo: "buf_offset_of b = buf_offset_of ?A" and bp: "buf_page_of b = buf_page_of ?A"
      by simp_all
    have "unat b = unat ?A"
      using buffer_rebuild(2) [OF be bl] buffer_rebuild(2) [OF e l] bo bp by simp
    then show "b = ?A" by (simp add: word_unat_eq_iff)
  qed
  from 1 2 3 4 5 show "\<exists>lo hi page pre mid post.
         outs (trace s') =
           outs (trace s) @ pre @ [(lo, DMA_BASE_ADDR c), (hi, DMA_BASE_ADDR c)] @ mid @
           [(page, DMA_PAGE_PORT c)] @ post
         \<and> length pre = 5 \<and> length mid = 2 \<and> length post = 8
         \<and> unat lo + 256 * unat hi = (unat (buffer c) div 2) mod 65536
         \<and> unat page = (unat (buffer c) div 65536) mod 256
         \<and> (even (unat (buffer c)) \<and> unat (buffer c) < 2 ^ 24 \<longrightarrow>
              unat page = unat (buffer c) div 65536
              \<and> unat (buffer c) = 131072 * (unat page div 2) + 2 * (unat lo + 256 * unat hi)
              \<and> (\<forall>b. even (unat b) \<and> unat b < 2 ^ 24
                     \<and> buf_offset_of b = buf_offset_of (buffer c)
                     \<and> buf_page_of b = buf_page_of (buffer c) \<longrightarrow> b = buffer c))"
    by blast
qed

theorem sb16_init_buffer_placement_witness:
  "even (unat (buffer sb16_example)) \<and> unat (buffer sb16_example) < 2 ^ 24
   \<and> (\<exists>s' lo hi page pre mid post.
         sb16_init sb16_example (scripted sb16_example) (Some (block_of wave_header)) (idle [0xAA])
           = Some (Inr (buffer sb16_example), s')
         \<and> outs (trace s') = pre @ [(lo, 0xC4), (hi, 0xC4)] @ mid @ [(page, 0x8B)] @ post
         \<and> length pre = 5 \<and> length mid = 2 \<and> length post = 8
         \<and> unat lo + 256 * unat hi = 32768
         \<and> unat page = 65
         \<and> unat (buffer sb16_example) = 131072 * (unat page div 2) + 2 * (unat lo + 256 * unat hi))"
proof -
  have u: "unat (buffer sb16_example) = 4259840" by simp
  have v: "even (unat (buffer sb16_example))" "unat (buffer sb16_example) < 2 ^ 24"
    unfolding u by simp_all
  from example_play obtain s' where
    i: "sb16_init sb16_example (scripted sb16_example) (Some (block_of wave_header)) (idle [0xAA])
       = Some (Inr 0x410000, s')"
    by (rule map_option_apsnd_Some)
  have t: "outs (trace (idle [0xAA :: byte])) = []" by (simp add: idle_def)
  from sb16_init_buffer_placement [OF i, THEN conjunct2] obtain lo hi page pre mid post where
    w: "outs (trace s') =
         outs (trace (idle [0xAA :: byte])) @ pre
         @ [(lo, DMA_BASE_ADDR sb16_example), (hi, DMA_BASE_ADDR sb16_example)] @ mid
         @ [(page, DMA_PAGE_PORT sb16_example)] @ post"
    and n: "length pre = 5" "length mid = 2" "length post = 8"
    and o: "unat lo + 256 * unat hi = (unat (buffer sb16_example) div 2) mod 65536"
    and p: "unat page = (unat (buffer sb16_example) div 65536) mod 256"
    and r: "even (unat (buffer sb16_example)) \<and> unat (buffer sb16_example) < 2 ^ 24 \<longrightarrow>
              unat page = unat (buffer sb16_example) div 65536
              \<and> unat (buffer sb16_example)
                  = 131072 * (unat page div 2) + 2 * (unat lo + 256 * unat hi)
              \<and> (\<forall>b. even (unat b) \<and> unat b < 2 ^ 24
                     \<and> buf_offset_of b = buf_offset_of (buffer sb16_example)
                     \<and> buf_page_of b = buf_page_of (buffer sb16_example)
                     \<longrightarrow> b = buffer sb16_example)"
    by blast
  from w have w': "outs (trace s') = pre @ [(lo, 0xC4), (hi, 0xC4)] @ mid @ [(page, 0x8B)] @ post"
    unfolding t by simp
  from o have o': "unat lo + 256 * unat hi = 32768" unfolding u by simp
  from p have p': "unat page = 65" unfolding u by simp
  from r v have r': "unat (buffer sb16_example)
                  = 131072 * (unat page div 2) + 2 * (unat lo + 256 * unat hi)"
    by blast
  from i have i': "sb16_init sb16_example (scripted sb16_example) (Some (block_of wave_header))
      (idle [0xAA]) = Some (Inr (buffer sb16_example), s')"
    by simp
  from v i' w' n o' p' r' show ?thesis by blast
qed

section \<open>Programming the DMA controller\<close>

text \<open>
  Claim C4, amended. On its success path \<open>sb16_init\<close> programs the DMA controller right
  after the two writes of the reset handshake, with exactly these port writes in this
  order: mask the channel, clear the flip-flop, select the mode, base offset low byte then
  high byte, transfer count low byte then high byte, page register, unmask the channel;
  the seven writes to the codec follow. The count written is \<open>BUF_SIZE - 1\<close> (for a
  \<open>BUF_SIZE\<close> from 1 to 65536): one less than the bytes of one half of the buffer, which is
  one less than the 16-bit words of the whole buffer.
\<close>

theorem dma_programming:
  assumes "sb16_init c h blk s = Some (Inr a, s')"
  shows "outs (trace (dma_init c h off len page t)) =
           outs (trace t) @
           [(DMA_STOP_MASK c, DMA_MASK_PORT c),
            (0, DMA_CLR_PTR_PORT c),
            (DMA_MODE c, DMA_MODE_PORT c),
            (lo_byte off, DMA_BASE_ADDR c),
            (hi_byte off, DMA_BASE_ADDR c),
            (lo_byte len, DMA_COUNT_PORT c),
            (hi_byte len, DMA_COUNT_PORT c),
            (page, DMA_PAGE_PORT c),
            (DMA_START_MASK c, DMA_MASK_PORT c)]
         \<and> (\<exists>post. length post = 7 \<and>
           outs (trace s') =
             outs (trace s) @ [(1, SB16_RESET_PORT c), (0, SB16_RESET_PORT c)] @
             [(DMA_STOP_MASK c, DMA_MASK_PORT c),
              (0, DMA_CLR_PTR_PORT c),
              (DMA_MODE c, DMA_MODE_PORT c),
              (lo_byte (buf_offset_of (buffer c)), DMA_BASE_ADDR c),
              (hi_byte (buf_offset_of (buffer c)), DMA_BASE_ADDR c),
              (lo_byte (word_of_int (int (BUF_SIZE c) - 1)), DMA_COUNT_PORT c),
              (hi_byte (word_of_int (int (BUF_SIZE c) - 1)), DMA_COUNT_PORT c),
              (buf_page_of (buffer c), DMA_PAGE_PORT c),
              (DMA_START_MASK c, DMA_MASK_PORT c)] @ post)
         \<and> (0 < BUF_SIZE c \<and> BUF_SIZE c \<le> 65536 \<longrightarrow>
              unat (lo_byte (word_of_int (int (BUF_SIZE c) - 1)))
              + 256 * unat (hi_byte (word_of_int (int (BUF_SIZE c) - 1))) = BUF_SIZE c - 1)"
proof (intro conjI)
  show "outs (trace (dma_init c h off len page t)) =
           outs (trace t) @
           [(DMA_STOP_MASK c, DMA_MASK_PORT c),
            (0, DMA_CLR_PTR_PORT c),
            (DMA_MODE c, DMA_MODE_PORT c),
            (lo_byte off, DMA_BASE_ADDR c),
            (hi_byte off, DMA_BASE_ADDR c),
            (lo_byte len, DMA_COUNT_PORT c),
            (hi_byte len, DMA_COUNT_PORT c),
            (page, DMA_PAGE_PORT c),
            (DMA_START_MASK c, DMA_MASK_PORT c)]"
    by (rule dma_init_frame(3))
  from sb16_init_success(5) [OF assms] obtain m where
    "outs (trace s') =
       outs (trace s) @ reset_writes c @ dma_writes c @ dsp_writes c (load16 m (SAMPLE_RATE_LOC c))"
    by blast
  then show "\<exists>post. length post = 7 \<and>
           outs (trace s') =
             outs (trace s) @ [(1, SB16_RESET_PORT c), (0, SB16_RESET_PORT c)] @
             [(DMA_STOP_MASK c, DMA_MASK_PORT c),
              (0, DMA_CLR_PTR_PORT c),
              (DMA_MODE c, DMA_MODE_PORT c),
              (lo_byte (buf_offset_of (buffer c)), DMA_BASE_ADDR c),
              (hi_byte (buf_offset_of (buffer c)), DMA_BASE_ADDR c),
              (lo_byte (word_of_int (int (BUF_SIZE c) - 1)), DMA_COUNT_PORT c),
              (hi_byte (word_of_int (int (BUF_SIZE c) - 1)), DMA_COUNT_PORT c),
              (buf_page_of (buffer c), DMA_PAGE_PORT c),
              (DMA_START_MASK c, DMA_MASK_PORT c)] @ post"
    by (intro exI [of _ "dsp_writes c (load16 m (SAMPLE_RATE_LOC c))"])
       (simp only: reset_writes_def dma_writes_def dsp_writes_def, simp)
  show "0 < BUF_SIZE c \<and> BUF_SIZE c \<le> 65536 \<longrightarrow>
              unat (lo_byte (word_of_int (int (BUF_SIZE c) - 1)))
              + 256 * unat (hi_byte (word_of_int (int (BUF_SIZE c) - 1))) = BUF_SIZE c - 1"
    unfolding unat_lo_hi using unat_pred_16 [of "BUF_SIZE c"] by blast
qed

theorem dma_programming_witness:
  "\<exists>s' post.
     sb16_init sb16_example (scripted sb16_example) (Some (block_of wave_header)) (idle [0xAA])
       = Some (Inr 0x410000, s')
     \<and> length post = 7
     \<and> outs (trace s') =
         [(1, 0x226), (0, 0x226),
          (0x05, 0xD4), (0, 0xD8), (0x59, 0xD6), (0x00, 0xC4), (0x80, 0xC4),
          (0xFF, 0xC6), (0x7F, 0xC6), (0x41, 0x8B), (0x01, 0xD4)] @ post
     \<and> unat (0xFF :: byte) + 256 * unat (0x7F :: byte) = BUF_SIZE sb16_example - 1"
proof -
  from example_play obtain s' where
    i: "sb16_init sb16_example (scripted sb16_example) (Some (block_of wave_header)) (idle [0xAA])
       = Some (Inr 0x410000, s')"
    by (rule map_option_apsnd_Some)
  have t: "outs (trace (idle [0xAA :: byte])) = []" by (simp add: idle_def)
  have w: "word_of_int (int (BUF_SIZE sb16_example) - 1) = (0x7FFF :: 16 word)" by simp
  from dma_programming [OF i, THEN conjunct2, THEN conjunct1] obtain post where "length post = 7"
    "outs (trace s') =
         [(1, 0x226), (0, 0x226),
          (0x05, 0xD4), (0, 0xD8), (0x59, 0xD6), (0x00, 0xC4), (0x80, 0xC4),
          (0xFF, 0xC6), (0x7F, 0xC6), (0x41, 0x8B), (0x01, 0xD4)] @ post"
    unfolding t w by (auto simp: example_args)
  with i show ?thesis by auto
qed

text \<open>
  Claim C4, as stated, fails on the example: the claim has the page register written
  before the count and a count of \<open>bufferHalfBytes * 2 - 1\<close>, which is 0xFFFF here; the
  driver writes the count (0xFF, 0x7F: 32767) and then the page (0x41).
\<close>

theorem dma_sequence_counterexample:
  "map_option (apsnd observe)
     (sb16_init sb16_example (scripted sb16_example) (Some (block_of wave_header)) (idle [0xAA]))
   = Some (Inr 0x410000, 1, 1, played_writes)
   \<and> take 9 (drop 2 played_writes) \<noteq> dma_sequence_claimed sb16_example"
proof (rule conjI)
  show "map_option (apsnd observe)
     (sb16_init sb16_example (scripted sb16_example) (Some (block_of wave_header)) (idle [0xAA]))
   = Some (Inr 0x410000, 1, 1, played_writes)"
    by (rule example_play)
  show "take 9 (drop 2 played_writes) \<noteq> dma_sequence_claimed sb16_example"
    by (simp add: played_writes_def dma_sequence_claimed_def example_args)
qed

section \<open>Configuring the codec\<close>

text \<open>
  Claim C5, amended. On its success path the last seven port writes of \<open>sb16_init\<close>, after
  the eleven of the reset handshake and the DMA controller, go to the codec's write port
  in this order: the output-rate command, the sample rate's high byte, its low byte, the
  playback command, the mode byte, the block length's low byte, its high byte. The block
  length written is \<open>BUF_SIZE div 2 - 1\<close> (for a \<open>BUF_SIZE\<close> from 2 to 131072): one less than
  the number of 16-bit samples, both channels counted, in one half of the buffer.
\<close>

theorem dsp_programming:
  assumes "sb16_init c h (Some m) s = Some (Inr a, s')"
  shows "(dsp_init c h rate bcommand bmode len t = Some t' \<longrightarrow>
           outs (trace t') =
             outs (trace t) @
             [(DSP_OUT_RATE_CMD c, SB16_WRITE_PORT c),
              (hi_byte rate, SB16_WRITE_PORT c),
              (lo_byte rate, SB16_WRITE_PORT c),
              (bcommand, SB16_WRITE_PORT c),
              (bmode, SB16_WRITE_PORT c),
              (lo_byte len, SB16_WRITE_PORT c),
              (hi_byte len, SB16_WRITE_PORT c)])
         \<and> (\<exists>pre. length pre = 11 \<and>
           outs (trace s') =
             outs (trace s) @ pre @
             [(DSP_OUT_RATE_CMD c, SB16_WRITE_PORT c),
              (hi_byte (load16 m (SAMPLE_RATE_LOC c)), SB16_WRITE_PORT c),
              (lo_byte (load16 m (SAMPLE_RATE_LOC c)), SB16_WRITE_PORT c),
              (DSP_BCOMMAND c, SB16_WRITE_PORT c),
              (DSP_BMODE c, SB16_WRITE_PORT c),
              (lo_byte (word_of_int (int (BUF_SIZE c div BUF_DIM) - 1)), SB16_WRITE_PORT c),
              (hi_byte (word_of_int (int (BUF_SIZE c div BUF_DIM) - 1)), SB16_WRITE_PORT c)])
         \<and> unat (hi_byte (load16 m (SAMPLE_RATE_LOC c))) = unat (load16 m (SAMPLE_RATE_LOC c)) div 256
         \<and> unat (lo_byte (load16 m (SAMPLE_RATE_LOC c))) = unat (load16 m (SAMPLE_RATE_LOC c)) mod 256
         \<and> (2 \<le> BUF_SIZE c \<and> BUF_SIZE c \<le> 131072 \<longrightarrow>
              unat (lo_byte (word_of_int (int (BUF_SIZE c div BUF_DIM) - 1)))
              + 256 * unat (hi_byte (word_of_int (int (BUF_SIZE c div BUF_DIM) - 1)))
              = BUF_SIZE c div 2 - 1)"
proof (intro conjI)
  show "dsp_init c h rate bcommand bmode len t = Some t' \<longrightarrow>
           outs (trace t') =
             outs (trace t) @
             [(DSP_OUT_RATE_CMD c, SB16_WRITE_PORT c),
              (hi_byte rate, SB16_WRITE_PORT c),
              (lo_byte rate, SB16_WRITE_PORT c),
              (bcommand, SB16_WRITE_PORT c),
              (bmode, SB16_WRITE_PORT c),
              (lo_byte len, SB16_WRITE_PORT c),
              (hi_byte len, SB16_WRITE_PORT c)]"
    by (rule impI) (rule dsp_init_frame(3))
  from sb16_init_success(5) [OF assms] have
    "outs (trace s') =
       outs (trace s) @ reset_writes c @ dma_writes c @ dsp_writes c (load16 m (SAMPLE_RATE_LOC c))"
    by simp
  then show "\<exists>pre. length pre = 11 \<and>
           outs (trace s') =
             outs (trace s) @ pre @
             [(DSP_OUT_RATE_CMD c, SB16_WRITE_PORT c),
              (hi_byte (load16 m (SAMPLE_RATE_LOC c)), SB16_WRITE_PORT c),
              (lo_byte (load16 m (SAMPLE_RATE_LOC c)), SB16_WRITE_PORT c),
              (DSP_BCOMMAND c, SB16_WRITE_PORT c),
              (DSP_BMODE c, SB16_WRITE_PORT c),
              (lo_byte (word_of_int (int (BUF_SIZE c div BUF_DIM) - 1)), SB16_WRITE_PORT c),
              (hi_byte (word_of_int (int (BUF_SIZE c div BUF_DIM) - 1)), SB16_WRITE_PORT c)]"
    by (intro exI [of _ "reset_writes c @ dma_writes c"])
       (simp only: reset_writes_def dma_writes_def dsp_writes_def, simp)
  show "unat (hi_byte (load16 m (SAMPLE_RATE_LOC c))) = unat (load16 m (SAMPLE_RATE_LOC c)) div 256"
    by (rule unat_hi_byte)
  show "unat (lo_byte (load16 m (SAMPLE_RATE_LOC c))) = unat (load16 m (SAMPLE_RATE_LOC c)) mod 256"
    by (rule unat_lo_byte)
  show "2 \<le> BUF_SIZE c \<and> BUF_SIZE c \<le> 131072 \<longrightarrow>
              unat (lo_byte (word_of_int (int (BUF_SIZE c div BUF_DIM) - 1)))
              + 256 * unat (hi_byte (word_of_int (int (BUF_SIZE c div BUF_DIM) - 1)))
              = BUF_SIZE c div 2 - 1"
  proof
    assume b: "2 \<le> BUF_SIZE c \<and> BUF_SIZE c \<le> 131072"
    define k where "k = BUF_SIZE c div 2"
    from b have "0 < k" unfolding k_def by simp
    moreover from b have "BUF_SIZE c div 2 \<le> 131072 div 2" by (intro div_le_mono) simp
    then have "k \<le> 65536" unfolding k_def by simp
    ultimately have "0 < k" "k \<le> 65536" by simp_all
    from unat_pred_16 [OF this] show "unat (lo_byte (word_of_int (int (BUF_SIZE c div BUF_DIM) - 1)))
              + 256 * unat (hi_byte (word_of_int (int (BUF_SIZE c div BUF_DIM) - 1)))
              = BUF_SIZE c div 2 - 1"
      unfolding unat_lo_hi BUF_DIM_def k_def .
  qed
qed

theorem dsp_programming_witness:
  "\<exists>s' pre.
     sb16_init sb16_example (scripted sb16_example) (Some (block_of wave_header)) (idle [0xAA])
       = Some (Inr 0x410000, s')
     \<and> length pre = 11
     \<and> outs (trace s') =
         pre @ [(0x41, 0x22C), (0xAC, 0x22C), (0x44, 0x22C), (0xB6, 0x22C), (0x30, 0x22C),
                (0xFF, 0x22C), (0x3F, 0x22C)]
     \<and> unat (0xFF :: byte) + 256 * unat (0x3F :: byte) = BUF_SIZE sb16_example div 2 - 1"
proof -
  from example_play obtain s' where
    i: "sb16_init sb16_example (scripted sb16_example) (Some (block_of wave_header)) (idle [0xAA])
       = Some (Inr 0x410000, s')"
    by (rule map_option_apsnd_Some)
  have t: "outs (trace (idle [0xAA :: byte])) = []" by (simp add: idle_def)
  have w: "word_of_int (int (BUF_SIZE sb16_example div BUF_DIM) - 1) = (0x3FFF :: 16 word)"
    by (simp add: BUF_DIM_def)
  have r: "load16 (block_of wave_header) (SAMPLE_RATE_LOC sb16_example) = 0xAC44"
    by (simp add: wave_rate)
  from dsp_programming [OF i, THEN conjunct2, THEN conjunct1] obtain pre where "length pre = 11"
    "outs (trace s') =
         pre @ [(0x41, 0x22C), (0xAC, 0x22C), (0x44, 0x22C), (0xB6, 0x22C), (0x30, 0x22C),
                (0xFF, 0x22C), (0x3F, 0x22C)]"
    unfolding t w r by (auto simp: example_args)
  with i show ?thesis by auto
qed

text \<open>
  Claim C5, as stated, fails on the example: one half of the buffer has 32768 bytes, that
  is 8192 samples per channel of 16-bit stereo, so the claim has a block length of 8191;
  the driver writes 0xFF, 0x3F: 16383.
\<close>

theorem dsp_block_length_counterexample:
  "map_option (apsnd observe)
     (sb16_init sb16_example (scripted sb16_example) (Some (block_of wave_header)) (idle [0xAA]))
   = Some (Inr 0x410000, 1, 1, played_writes)
   \<and> drop 11 played_writes \<noteq> dsp_sequence_claimed sb16_example 0xAC44
   \<and> samples_per_channel_in_half sb16_example - 1 = 8191
   \<and> unat (0xFF :: byte) + 256 * unat (0x3F :: byte) = 16383"
proof (intro conjI)
  show "map_option (apsnd observe)
     (sb16_init sb16_example (scripted sb16_example) (Some (block_of wave_header)) (idle [0xAA]))
   = Some (Inr 0x410000, 1, 1, played_writes)"
    by (rule example_play)
  show s: "samples_per_channel_in_half sb16_example - 1 = 8191"
    by (simp add: samples_per_channel_in_half_def NCHANNELS_def SIXTEEN_BITS_def)
  have "lo_byte (word_of_int (int (samples_per_channel_in_half sb16_example) - 1)) = 0xFF"
    "hi_byte (word_of_int (int (samples_per_channel_in_half sb16_example) - 1)) = 0x1F"
    by (simp_all add: samples_per_channel_in_half_def NCHANNELS_def SIXTEEN_BITS_def
        lo_byte_def hi_byte_def)
  then show "drop 11 played_writes \<noteq> dsp_sequence_claimed sb16_example 0xAC44"
    by (simp add: played_writes_def dsp_sequence_claimed_def)
  show "unat (0xFF :: byte) + 256 * unat (0x3F :: byte) = 16383" by simp
qed

section \<open>The return value of sb16\_reset\<close>

lemma ready_within:
  assumes "rs \<noteq> []" and "x \<notin> set (butlast rs)"
  shows "x \<in> set (take n rs) \<longleftrightarrow> last rs = x \<and> length rs \<le> n"
proof (cases "length rs \<le> n")
  case True
  then have "take n rs = rs" by simp
  moreover from assms(1) have "set rs = insert (last rs) (set (butlast rs))"
    by (metis append_butlast_last_id list.simps(15) rotate1.simps(2) set_rotate1)
  ultimately show ?thesis using assms(2) True by auto
next
  case False
  then have "n \<le> length (butlast rs)" by simp
  then have "take n rs = take n (butlast rs)"
    by (metis assms(1) append_butlast_last_id take_append diff_is_0_eq take_0 append_Nil2)
  then have "set (take n rs) \<subseteq> set (butlast rs)" by (simp add: set_take_subset)
  with assms(2) False show ?thesis by auto
qed

text \<open>
  The return value of \<open>sb16_reset\<close>, for every card on which it returns and every poll
  budget. The loop polls the read port at least once and at most \<open>WAITLOOP + 1\<close> times and
  stops at the first ready byte. When the last byte polled is the ready byte, the return
  value is \<open>WAITLOOP\<close> minus the number of polls; when no byte is, the loop has polled
  \<open>WAITLOOP + 1\<close> times and the return value is \<open>-2\<close>. So the return value is
  non-negative exactly when the ready byte is among the first \<open>WAITLOOP\<close> bytes polled; it
  is \<open>-1\<close> only when the ready byte arrives on poll \<open>WAITLOOP + 1\<close>, and never on a
  failure.
\<close>

theorem sb16_reset_result:
  assumes "SB16_READ_PORT c \<noteq> SB16_POLL_PORT c"
    and "sb16_reset c h s = Some (r, s')"
  shows "\<exists>rs. polled c s' = polled c s @ rs
        \<and> rs \<noteq> [] \<and> length rs \<le> WAITLOOP c + 1 \<and> SUCCESS_VAL c \<notin> set (butlast rs)
        \<and> (if last rs = SUCCESS_VAL c then r = int (WAITLOOP c) - int (length rs)
            else length rs = WAITLOOP c + 1 \<and> r = - 2)
        \<and> (0 \<le> r \<longleftrightarrow> SUCCESS_VAL c \<in> set (take (WAITLOOP c) rs))"
proof -
  from sb16_reset_reads [OF assms] obtain rs where
    rs: "ins (SB16_READ_PORT c) (trace s') = ins (SB16_READ_PORT c) (trace s) @ rs"
      "rs \<noteq> []" "length rs \<le> Suc (WAITLOOP c)" "SUCCESS_VAL c \<notin> set (butlast rs)"
      "if last rs = SUCCESS_VAL c then r = int (WAITLOOP c) - int (length rs)
       else length rs = Suc (WAITLOOP c) \<and> r = - 2"
    by blast
  have "0 \<le> r \<longleftrightarrow> last rs = SUCCESS_VAL c \<and> length rs \<le> WAITLOOP c"
    using rs(5) by (auto split: if_splits)
  with ready_within [OF rs(2,4), of "WAITLOOP c"]
  have "0 \<le> r \<longleftrightarrow> SUCCESS_VAL c \<in> set (take (WAITLOOP c) rs)" by simp
  with rs show ?thesis
    by (intro exI [of _ rs]) (simp add: polled_def)
qed

theorem sb16_reset_result_witness:
  "SB16_READ_PORT sb16_example \<noteq> SB16_POLL_PORT sb16_example
   \<and> (\<exists>s' rs. sb16_reset sb16_example (scripted sb16_example) (idle [0, 0xAA]) = Some (1, s')
         \<and> polled sb16_example s' = rs
         \<and> length rs \<le> 4 \<and> last rs = 0xAA \<and> 1 = 3 - int (length rs))"
proof -
  have p: "SB16_READ_PORT sb16_example \<noteq> SB16_POLL_PORT sb16_example" by simp
  have e: "map_option (apsnd (polled sb16_example))
      (sb16_reset sb16_example (scripted sb16_example) (idle [0, 0xAA])) = Some (1, [0, 0xAA])"
    by (simp add: sb16_reset_unfold numeral_3_eq_3 scripted_dsp_read idle_def outb_def emit_def
        polled_def)
  then obtain s' where
    r: "sb16_reset sb16_example (scripted sb16_example) (idle [0, 0xAA]) = Some (1, s')"
    by (rule map_option_apsnd_Some)
  have i: "polled sb16_example (idle [0, 0xAA :: byte]) = []"
    by (simp add: polled_def idle_def)
  from sb16_reset_result [OF p r] obtain rs where
    rs: "polled sb16_example s' = rs" "length rs \<le> WAITLOOP sb16_example + 1"
      "if last rs = SUCCESS_VAL sb16_example
       then 1 = int (WAITLOOP sb16_example) - int (length rs)
       else length rs = WAITLOOP sb16_example + 1 \<and> (1::int) = - 2"
    unfolding i by auto
  from rs(3) have "last rs = 0xAA \<and> 1 = 3 - int (length rs)"
    by (simp split: if_splits)
  with rs(1,2) p r show ?thesis by auto
qed

section \<open>The reset handshake and sb16\_init\<close>

text \<open>
  Claim C1: when the reset handshake fails, \<open>sb16_init\<close> returns \<open>-1\<close> and has neither
  programmed the DMA controller nor the codec nor set \<open>in_use\<close>. The driver departs from
  it. On the example card with an empty script the ready byte never arrives; \<open>sb16_reset\<close>
  polls four times and returns \<open>-2\<close>, which the test \<open>sb16_reset() == -1\<close> of \<open>sb16_init\<close>
  lets pass, and \<open>sb16_init\<close> does all that it does for a card that is ready: the same
  eighteen port writes, \<open>in_use\<close> set, the buffer's address returned.
\<close>

theorem sb16_init_misses_failed_reset:
  "map_option (apsnd (polled sb16_example))
     (sb16_reset sb16_example (scripted sb16_example)
        (enable_irq (SB16_IRQ_LINE sb16_example) (idle [])))
   = Some (- 2, [0, 0, 0, 0])
   \<and> map_option (apsnd observe)
     (sb16_init sb16_example (scripted sb16_example) (Some (block_of wave_header)) (idle []))
   = Some (Inr 0x410000, 1, 1, played_writes)"
proof (rule conjI)
  show "map_option (apsnd (polled sb16_example))
     (sb16_reset sb16_example (scripted sb16_example)
        (enable_irq (SB16_IRQ_LINE sb16_example) (idle [])))
   = Some (- 2, [0, 0, 0, 0])"
    by (simp add: sb16_reset_unfold numeral_3_eq_3 scripted_dsp_read idle_def outb_def emit_def
        enable_irq_def polled_def)
  show "map_option (apsnd observe)
     (sb16_init sb16_example (scripted sb16_example) (Some (block_of wave_header)) (idle []))
   = Some (Inr 0x410000, 1, 1, played_writes)"
    by (rule example_play_never_ready)
qed

text \<open>
  Claim C2: \<open>sb16_reset\<close> returns a non-negative value exactly when the ready byte arrives
  within the polls of its budget. The driver departs from it. With \<open>WAITLOOP\<close> at 3 the
  loop polls up to four times; a ready byte on the first poll gives 2 and on the third
  gives 0, but a ready byte on the fourth poll, the last one the loop makes, gives \<open>-1\<close>,
  the value for a failure; and a card that never sends it gives \<open>-2\<close> after four polls.
\<close>

theorem sb16_reset_last_poll:
  "map_option (apsnd (polled sb16_example))
     (sb16_reset sb16_example (scripted sb16_example) (idle [0, 0, 0, 0xAA]))
   = Some (- 1, [0, 0, 0, 0xAA])
   \<and> map_option (apsnd (polled sb16_example))
     (sb16_reset sb16_example (scripted sb16_example) (idle [0, 0, 0xAA]))
   = Some (0, [0, 0, 0xAA])
   \<and> map_option (apsnd (polled sb16_example))
     (sb16_reset sb16_example (scripted sb16_example) (idle [0xAA]))
   = Some (2, [0xAA])
   \<and> map_option (apsnd (polled sb16_example))
     (sb16_reset sb16_example (scripted sb16_example) (idle []))
   = Some (- 2, [0, 0, 0, 0])"
  by (simp add: sb16_reset_unfold numeral_3_eq_3 scripted_dsp_read idle_def outb_def emit_def
      polled_def)

end
